theory Spec2Isabelle
  imports Complex_Main "HOL-Library.Multiset" "HOL-Library.Word"
begin

section \<open>Python exceptions\<close>

text \<open>
  Every exception below is an instance of Python's \<^verbatim>\<open>Exception\<close> class, which is
  what the handlers \<^verbatim>\<open>except Exception\<close> of the repository catch.  \<open>ExternalError\<close>
  stands for any failure raised inside a third-party client (HTTP client, vector store,
  PDF reader, inference API); its argument is the message.
\<close>

datatype py_exception =
    TypeError
  | IndexError
  | ZeroDivisionError
  | OverflowError
  | AttributeError
  | ExternalError string

section \<open>Floating-point numbers\<close>

text \<open>
  A Python \<^verbatim>\<open>float\<close> is an IEEE-754 binary64 number.  \<open>Finite s m e\<close> is the number
  \<open>m * 2 ^ e\<close> for the significand \<open>m \<ge> 0\<close> and the exponent \<open>e\<close>, negated when the
  sign \<open>s\<close> is \<open>True\<close>; \<open>Infinity s\<close> is \<^verbatim>\<open>inf\<close> or \<^verbatim>\<open>-inf\<close> and \<open>NaN\<close> is \<^verbatim>\<open>nan\<close>.
  The results of the operations below are normalised: \<open>2 ^ 52 \<le> m < 2 ^ 53\<close> and
  \<open>- 1074 \<le> e \<le> 971\<close> for a normal number, \<open>0 < m < 2 ^ 52\<close> and \<open>e = - 1074\<close> for a
  subnormal one, and \<open>Finite s 0 0\<close> for the two zeros.
\<close>

datatype double = Finite bool int int | Infinity bool | NaN

text \<open>The real number a finite float stands for.\<close>

definition double_value :: "double \<Rightarrow> real option" where
  "double_value x =
     (case x of
        Finite s m e \<Rightarrow>
          Some ((if s then - 1 else 1) * real_of_int m
                * (if 0 \<le> e then 2 ^ nat e else 1 / 2 ^ nat (- e)))
      | Infinity s \<Rightarrow> None
      | NaN \<Rightarrow> None)"

text \<open>\<^verbatim>\<open>int.bit_length()\<close>: the number of binary digits of a positive integer.\<close>

function bit_length :: "int \<Rightarrow> int" where
  "bit_length n = (if n \<le> 0 then 0 else 1 + bit_length (n div 2))"
  by pat_completeness auto
termination
  by (relation "measure nat") auto

declare bit_length.simps [simp del]

text \<open>The integer part of the binary logarithm of \<open>n / d\<close>, for positive \<open>n\<close> and \<open>d\<close>.\<close>

definition quotient_exponent :: "int \<Rightarrow> int \<Rightarrow> int" where
  "quotient_exponent n d =
     (let k = bit_length n - bit_length d
      in if (if 0 \<le> k then d * 2 ^ nat k \<le> n else d \<le> n * 2 ^ nat (- k))
         then k else k - 1)"

text \<open>
  The float nearest to the exact quotient \<open>n / d\<close> (\<open>0 \<le> n\<close>, \<open>0 < d\<close>) with the sign
  \<open>s\<close>, in the default rounding mode: to nearest, a tie to the even significand.  The
  exponent is that of a 53-bit significand, and not below that of the subnormal
  numbers; a significand rounded up to \<open>2 ^ 53\<close> moves to the next exponent; a result
  beyond the largest finite float overflows to infinity, and one rounded down to
  nothing underflows to zero.
\<close>

definition round_nearest_even :: "bool \<Rightarrow> int \<Rightarrow> int \<Rightarrow> double" where
  "round_nearest_even s n d =
     (if n = 0 then Finite s 0 0
      else
        (let e = max (quotient_exponent n d - 52) (- 1074);
             num = (if 0 \<le> e then n else n * 2 ^ nat (- e));
             den = (if 0 \<le> e then d * 2 ^ nat e else d);
             m0 = num div den;
             r = num mod den;
             m = (if den < 2 * r \<or> (2 * r = den \<and> odd m0) then m0 + 1 else m0)
         in if m = 0 then Finite s 0 0
            else if m = 2 ^ 53
            then (if 971 < e + 1 then Infinity s else Finite s (2 ^ 52) (e + 1))
            else (if 971 < e then Infinity s else Finite s m e)))"

text \<open>
  \<^verbatim>\<open>x + y\<close> on floats: the exact sum, rounded.  Infinities of opposite sign add to
  \<^verbatim>\<open>nan\<close>; an exact sum of zero is \<^verbatim>\<open>-0.0\<close> only when both operands are negative (or
  negative zeros).
\<close>

fun ieee_add :: "double \<Rightarrow> double \<Rightarrow> double" where
  "ieee_add NaN y = NaN"
| "ieee_add x NaN = NaN"
| "ieee_add (Infinity s) (Infinity t) = (if s = t then Infinity s else NaN)"
| "ieee_add (Infinity s) (Finite t m e) = Infinity s"
| "ieee_add (Finite s m e) (Infinity t) = Infinity t"
| "ieee_add (Finite sx mx ex) (Finite sy my ey) =
     (let ee = min ex ey;
          v = (if sx then - mx else mx) * 2 ^ nat (ex - ee)
              + (if sy then - my else my) * 2 ^ nat (ey - ee)
      in if v = 0 then Finite (sx \<and> sy) 0 0
         else if 0 \<le> ee then round_nearest_even (v < 0) (\<bar>v\<bar> * 2 ^ nat ee) 1
         else round_nearest_even (v < 0) \<bar>v\<bar> (2 ^ nat (- ee)))"

text \<open>
  The quotient of two floats, rounded.  The one caller, \<open>py_truediv\<close>, raises
  \<^verbatim>\<open>ZeroDivisionError\<close> for a zero divisor before it divides.
\<close>

fun ieee_div :: "double \<Rightarrow> double \<Rightarrow> double" where
  "ieee_div NaN y = NaN"
| "ieee_div x NaN = NaN"
| "ieee_div (Infinity s) (Infinity t) = NaN"
| "ieee_div (Infinity s) (Finite t m e) = Infinity (s \<noteq> t)"
| "ieee_div (Finite s m e) (Infinity t) = Finite (s \<noteq> t) 0 0"
| "ieee_div (Finite sx mx ex) (Finite sy my ey) =
     (if my = 0 then (if mx = 0 then NaN else Infinity (sx \<noteq> sy))
      else if 0 \<le> ex - ey then round_nearest_even (sx \<noteq> sy) (mx * 2 ^ nat (ex - ey)) my
      else round_nearest_even (sx \<noteq> sy) mx (my * 2 ^ nat (ey - ex)))"

text \<open>
  The conversion of a non-negative \<^verbatim>\<open>int\<close> to a float, which rounds from \<open>2 ^ 53\<close> on.
  (An \<^verbatim>\<open>int\<close> from \<open>2 ^ 1024\<close> on raises \<^verbatim>\<open>OverflowError\<close> instead; the only integer
  converted is the length of a list, which is far smaller.)
\<close>

definition ieee_of_nat :: "nat \<Rightarrow> double" where
  "ieee_of_nat n = round_nearest_even False (int n) 1"

text \<open>
  The builtin \<^verbatim>\<open>sum\<close> on a sequence of floats is code of the interpreter, and which
  float it returns depends on the interpreter: CPython up to 3.11 adds the items to
  the total from left to right, beginning with the \<^verbatim>\<open>int\<close> 0, each addition rounded
  (this is \<open>ieee_sum\<close>); CPython from 3.12 on also accumulates the rounding errors of
  the additions and adds them to the total at the end.  The normaliser is therefore
  modelled for an arbitrary summation \<open>fsum\<close> of this type.
\<close>

type_synonym float_sum = "double list \<Rightarrow> double"

definition ieee_sum :: float_sum where
  "ieee_sum xs = foldl ieee_add (Finite False 0 0) xs"

section \<open>Embedding values\<close>

text \<open>
  The values the feature-extraction client can hand to the normaliser: a number, which
  is a \<^verbatim>\<open>float\<close> (the client returns an array of 32-bit floats, whose \<^verbatim>\<open>tolist()\<close> holds
  Python floats), \<^verbatim>\<open>None\<close> (a scalar that is no number), a \<^verbatim>\<open>list\<close>, and a \<^verbatim>\<open>tuple\<close>
  (an iterable that is not a \<^verbatim>\<open>list\<close>).  An object exposing \<^verbatim>\<open>tolist()\<close> (a numpy
  array) is \<open>NdArray v\<close>, where \<open>v\<close> is the value \<^verbatim>\<open>tolist()\<close> returns.
\<close>

datatype py_val =
    Num double
  | NoneV
  | Lst "py_val list"
  | Tup "py_val list"

datatype api_result = Plain py_val | NdArray py_val

section \<open>Embedding normaliser\<close>

text \<open>\<^verbatim>\<open>float(x)\<close>: a float is returned as it is, anything else raises.\<close>

fun py_float :: "py_val \<Rightarrow> py_exception + double" where
  "py_float (Num r) = Inr r"
| "py_float v = Inl TypeError"

text \<open>\<^verbatim>\<open>xs[i]\<close> for a non-negative index: out of range raises, a scalar is not subscriptable.\<close>

fun py_getitem :: "py_val \<Rightarrow> nat \<Rightarrow> py_exception + py_val" where
  "py_getitem (Lst xs) i = (if i < length xs then Inr (xs ! i) else Inl IndexError)"
| "py_getitem (Tup xs) i = (if i < length xs then Inr (xs ! i) else Inl IndexError)"
| "py_getitem v i = Inl TypeError"

text \<open>
  An item as \<^verbatim>\<open>sum\<close> adds it to the running total: a float is added, and adding
  \<^verbatim>\<open>None\<close>, a \<^verbatim>\<open>list\<close> or a \<^verbatim>\<open>tuple\<close> to a number raises.
\<close>

fun py_addend :: "py_val \<Rightarrow> py_exception + double" where
  "py_addend (Num b) = Inr b"
| "py_addend v = Inl TypeError"

text \<open>
  \<^verbatim>\<open>a / n\<close> for a float \<open>a\<close> and the \<^verbatim>\<open>int\<close> \<open>n\<close> (a list length): the integer is converted
  to a float, a zero divisor raises, and the quotient is rounded.
\<close>

definition py_truediv :: "double \<Rightarrow> nat \<Rightarrow> py_exception + double" where
  "py_truediv a n =
     (if n = 0 then Inl ZeroDivisionError else Inr (ieee_div a (ieee_of_nat n)))"

text \<open>
  The items of the generator \<^verbatim>\<open>result[t][d] for t in range(num_tokens)\<close> that \<^verbatim>\<open>sum\<close>
  consumes.  \<^verbatim>\<open>sum\<close> takes one item and adds it before it takes the next, so the
  exception that leaves the loop is the first one met in this order: subscripting for
  \<open>t\<close>, then adding the item for \<open>t\<close>, then subscripting for the next \<open>t\<close>.
\<close>

fun column_values :: "py_val list \<Rightarrow> nat \<Rightarrow> nat list \<Rightarrow> py_exception + double list" where
  "column_values result d [] = Inr []"
| "column_values result d (t # ts) =
     (case py_getitem (Lst result) t of
        Inl e \<Rightarrow> Inl e
      | Inr row \<Rightarrow>
          (case py_getitem row d of
             Inl e \<Rightarrow> Inl e
           | Inr v \<Rightarrow>
               (case py_addend v of
                  Inl e \<Rightarrow> Inl e
                | Inr x \<Rightarrow>
                    (case column_values result d ts of
                       Inl e \<Rightarrow> Inl e
                     | Inr xs \<Rightarrow> Inr (x # xs)))))"

text \<open>
  The comprehension over \<^verbatim>\<open>range(dim)\<close> of the 2D branch:
  \<^verbatim>\<open>sum(result[t][d] for t in range(num_tokens)) / num_tokens\<close> for each \<open>d\<close>.
\<close>

fun mean_dims :: "float_sum \<Rightarrow> py_val list \<Rightarrow> nat list \<Rightarrow> py_exception + py_val list" where
  "mean_dims fsum result [] = Inr []"
| "mean_dims fsum result (d # ds) =
     (case column_values result d [0..<length result] of
        Inl e \<Rightarrow> Inl e
      | Inr xs \<Rightarrow>
          (case py_truediv (fsum xs) (length result) of
             Inl e \<Rightarrow> Inl e
           | Inr m \<Rightarrow>
               (case mean_dims fsum result ds of
                  Inl e \<Rightarrow> Inl e
                | Inr ms \<Rightarrow> Inr (Num m # ms))))"

text \<open>\<^verbatim>\<open>[float(x) for x in result]\<close>.\<close>

fun float_all :: "py_val list \<Rightarrow> py_exception + py_val list" where
  "float_all [] = Inr []"
| "float_all (x # xs) =
     (case py_float x of
        Inl e \<Rightarrow> Inl e
      | Inr r \<Rightarrow>
          (case float_all xs of
             Inl e \<Rightarrow> Inl e
           | Inr rs \<Rightarrow> Inr (Num r # rs)))"

text \<open>
  The 3D test: \<^verbatim>\<open>result[0]\<close> is a non-empty list whose first element is a list; then
  \<^verbatim>\<open>result = result[0]\<close>.
\<close>

fun reduce_3d :: "py_val list \<Rightarrow> py_val list" where
  "reduce_3d (Lst (Lst g # r0) # rest) = Lst g # r0"
| "reduce_3d result = result"

text \<open>The 2D test (\<^verbatim>\<open>result[0]\<close> is a list: mean-pool) and the 1D fall-through.\<close>

fun pool :: "float_sum \<Rightarrow> py_val list \<Rightarrow> py_exception + py_val list" where
  "pool fsum (Lst row # rest) = mean_dims fsum (Lst row # rest) [0..<length row]"
| "pool fsum result = float_all result"

text \<open>
  The body after the \<^verbatim>\<open>tolist\<close> conversion.  The first test of the source sends an
  empty list and every non-list to
  \<^verbatim>\<open>list(result) if hasattr(result, "__iter__") else [float(result)]\<close>.
\<close>

fun normalize_val :: "float_sum \<Rightarrow> py_val \<Rightarrow> py_exception + py_val list" where
  "normalize_val fsum (Lst []) = Inr []"
| "normalize_val fsum (Lst (x # xs)) = pool fsum (reduce_3d (x # xs))"
| "normalize_val fsum (Tup xs) = Inr xs"
| "normalize_val fsum v = (case py_float v of Inl e \<Rightarrow> Inl e | Inr r \<Rightarrow> Inr [Num r])"

text \<open>\<^verbatim>\<open>HFEmbeddings._normalize\<close> (rag\_engine.py).\<close>

fun normalize :: "float_sum \<Rightarrow> api_result \<Rightarrow> py_exception + py_val list" where
  "normalize fsum (NdArray v) = normalize_val fsum v"
| "normalize fsum (Plain v) = normalize_val fsum v"

text \<open>
  \<^verbatim>\<open>HFService._normalize_embedding\<close> (hf\_service.py) has, statement for statement, the
  body of \<^verbatim>\<open>HFEmbeddings._normalize\<close>.
\<close>

fun normalize_embedding :: "float_sum \<Rightarrow> api_result \<Rightarrow> py_exception + py_val list" where
  "normalize_embedding fsum (NdArray v) = normalize_val fsum v"
| "normalize_embedding fsum (Plain v) = normalize_val fsum v"

text \<open>Shapes of well-formed embedding outputs.\<close>

fun is_num :: "py_val \<Rightarrow> bool" where
  "is_num (Num r) = True"
| "is_num v = False"

fun is_rank1 :: "py_val \<Rightarrow> bool" where
  "is_rank1 (Lst xs) = list_all is_num xs"
| "is_rank1 v = False"

fun is_rank2 :: "py_val \<Rightarrow> bool" where
  "is_rank2 (Lst rows) = list_all is_rank1 rows"
| "is_rank2 v = False"

text \<open>A matrix of floats as the nested list the API returns.\<close>

definition matrix_val :: "double list list \<Rightarrow> py_val" where
  "matrix_val m = Lst (map (\<lambda>row. Lst (map Num row)) m)"

text \<open>The floats of the integers of a matrix.\<close>

definition float_matrix :: "nat list list \<Rightarrow> double list list" where
  "float_matrix m = map (map ieee_of_nat) m"

text \<open>The arithmetic mean of column \<open>d\<close> of a matrix of real numbers.\<close>

definition column_mean :: "real list list \<Rightarrow> nat \<Rightarrow> real" where
  "column_mean m d = (\<Sum>t<length m. m ! t ! d) / real (length m)"

section \<open>Python containers\<close>

text \<open>
  A \<^verbatim>\<open>dict\<close> keeps its keys in insertion order: an association list with one entry
  per key.  Assigning to a present key keeps its place, assigning to a new key appends.
\<close>

fun dict_get :: "('k \<times> 'v) list \<Rightarrow> 'k \<Rightarrow> 'v option" where
  "dict_get [] k = None"
| "dict_get ((k', v') # d) k = (if k' = k then Some v' else dict_get d k)"

fun dict_set :: "('k \<times> 'v) list \<Rightarrow> 'k \<Rightarrow> 'v \<Rightarrow> ('k \<times> 'v) list" where
  "dict_set [] k v = [(k, v)]"
| "dict_set ((k', v') # d) k v = (if k' = k then (k, v) # d else (k', v') # dict_set d k v)"

fun dict_del :: "('k \<times> 'v) list \<Rightarrow> 'k \<Rightarrow> ('k \<times> 'v) list" where
  "dict_del [] k = []"
| "dict_del ((k', v') # d) k = (if k' = k then dict_del d k else (k', v') # dict_del d k)"

definition dict_keys :: "('k \<times> 'v) list \<Rightarrow> 'k list" where
  "dict_keys d = map fst d"

text \<open>\<^verbatim>\<open>xs[start:]\<close>: a negative start counts from the end, and \<^verbatim>\<open>-0\<close> is \<^verbatim>\<open>0\<close>.\<close>

definition py_slice_from :: "'a list \<Rightarrow> int \<Rightarrow> 'a list" where
  "py_slice_from xs start =
     (if start < 0 then drop (nat (int (length xs) + start)) xs else drop (nat start) xs)"

section \<open>Dates\<close>

text \<open>
  A naive \<^verbatim>\<open>datetime\<close> is the number of microseconds since 0001-01-01T00:00:00; the type
  ends with year 9999.  A \<^verbatim>\<open>timedelta\<close> is a number of microseconds of at most
  999999999 days in magnitude.  Arithmetic leaving either range raises
  \<^verbatim>\<open>OverflowError\<close>.
\<close>

definition DATETIME_END :: int where
  "DATETIME_END = 3652059 * 86400000000"

definition timedelta_hours :: "int \<Rightarrow> py_exception + int" where
  "timedelta_hours h =
     (if \<bar>h div 24\<bar> > 999999999 then Inl OverflowError else Inr (h * 3600000000))"

definition datetime_sub :: "int \<Rightarrow> int \<Rightarrow> py_exception + int" where
  "datetime_sub t d =
     (if 0 \<le> t - d \<and> t - d < DATETIME_END then Inr (t - d) else Inl OverflowError)"

section \<open>Objects and the store\<close>

datatype message_type = TEXT | VOICE | IMAGE | DOCUMENT

record conversation_turn =
  role :: string
  content :: string
  timestamp :: int
  message_type :: message_type

text \<open>
  Objects that are shared by reference live in a store.  A \<^verbatim>\<open>ConversationTurn\<close> is
  one; a chat message, a \<^verbatim>\<open>dict\<close> from \<^verbatim>\<open>str\<close> to \<^verbatim>\<open>str\<close>, is the other.  Creating an
  object takes the next unused address.
\<close>

type_synonym addr = nat

datatype py_obj =
    TurnObj conversation_turn
  | DictObj "(string \<times> string) list"

record py_heap =
  cells :: "addr \<Rightarrow> py_obj option"
  next_addr :: addr

definition heap_alloc :: "py_heap \<Rightarrow> py_obj \<Rightarrow> addr \<times> py_heap" where
  "heap_alloc h obj =
     (next_addr h, h\<lparr>cells := (cells h)(next_addr h \<mapsto> obj), next_addr := Suc (next_addr h)\<rparr>)"

section \<open>Conversation memory (memory\_service.py)\<close>

record conversation_history =
  session_id :: string
  turns :: "addr list"
  created_at :: int
  updated_at :: int

record memory_service =
  conversations :: "(string \<times> conversation_history) list"
  max_history :: int
  ttl_hours :: int

text \<open>
  \<^verbatim>\<open>MemoryService.add_turn\<close>.  \<open>now\<close> is the reading of \<^verbatim>\<open>datetime.utcnow()\<close> during
  the call (the default factories of the two models and the assignment to
  \<^verbatim>\<open>updated_at\<close> read the clock within the same call).
\<close>

definition add_turn ::
  "py_heap \<Rightarrow> memory_service \<Rightarrow> int \<Rightarrow> string \<Rightarrow> string \<Rightarrow> string \<Rightarrow> message_type
   \<Rightarrow> py_heap \<times> memory_service" where
  "add_turn h ms now sid r c mt =
     (let conv = (case dict_get (conversations ms) sid of
                    None \<Rightarrow> \<lparr>session_id = sid, turns = [], created_at = now, updated_at = now\<rparr>
                  | Some cv \<Rightarrow> cv);
          (a, h') = heap_alloc h
                      (TurnObj \<lparr>role = r, content = c, timestamp = now, message_type = mt\<rparr>);
          appended = turns conv @ [a];
          trimmed = (if int (length appended) > max_history ms
                     then py_slice_from appended (- max_history ms)
                     else appended)
      in (h', ms\<lparr>conversations :=
                   dict_set (conversations ms) sid
                     (conv\<lparr>turns := trimmed, updated_at := now\<rparr>)\<rparr>))"

text \<open>\<^verbatim>\<open>MemoryService._cleanup_expired\<close>.\<close>

definition cleanup_expired :: "memory_service \<Rightarrow> int \<Rightarrow> py_exception + memory_service" where
  "cleanup_expired ms now =
     (case timedelta_hours (ttl_hours ms) of
        Inl e \<Rightarrow> Inl e
      | Inr delta \<Rightarrow>
          (case datetime_sub now delta of
             Inl e \<Rightarrow> Inl e
           | Inr cutoff \<Rightarrow>
               (let expired = [sid. (sid, conv) \<leftarrow> conversations ms, updated_at conv < cutoff]
                in Inr (ms\<lparr>conversations := foldl dict_del (conversations ms) expired\<rparr>))))"

text \<open>\<^verbatim>\<open>MemoryService.get_history\<close>: the result and the service after the sweep.\<close>

definition get_history ::
  "memory_service \<Rightarrow> int \<Rightarrow> string \<Rightarrow> py_exception + (addr list \<times> memory_service)" where
  "get_history ms now sid =
     (case cleanup_expired ms now of
        Inl e \<Rightarrow> Inl e
      | Inr ms' \<Rightarrow>
          (case dict_get (conversations ms') sid of
             None \<Rightarrow> Inr ([], ms')
           | Some conv \<Rightarrow> Inr (turns conv, ms')))"

text \<open>\<^verbatim>\<open>MemoryService.get_active_sessions\<close>.\<close>

definition get_active_sessions ::
  "memory_service \<Rightarrow> int \<Rightarrow> py_exception + (string list \<times> memory_service)" where
  "get_active_sessions ms now =
     (case cleanup_expired ms now of
        Inl e \<Rightarrow> Inl e
      | Inr ms' \<Rightarrow> Inr (dict_keys (conversations ms'), ms'))"

text \<open>\<^verbatim>\<open>MemoryService.clear_session\<close>.\<close>

definition clear_session :: "memory_service \<Rightarrow> string \<Rightarrow> bool \<times> memory_service" where
  "clear_session ms sid =
     (case dict_get (conversations ms) sid of
        None \<Rightarrow> (False, ms)
      | Some conv \<Rightarrow> (True, ms\<lparr>conversations := dict_del (conversations ms) sid\<rparr>))"

text \<open>
  The comprehension of \<^verbatim>\<open>get_chat_messages\<close>: for each turn a new \<^verbatim>\<open>dict\<close> is created
  from the turn's \<^verbatim>\<open>role\<close> and \<^verbatim>\<open>content\<close>.  An address that holds no turn has no such
  attributes.
\<close>

fun build_messages :: "py_heap \<Rightarrow> addr list \<Rightarrow> (py_exception + addr list) \<times> py_heap" where
  "build_messages h [] = (Inr [], h)"
| "build_messages h (t # ts) =
     (case cells h t of
        Some (TurnObj turn) \<Rightarrow>
          (case heap_alloc h (DictObj [(''role'', role turn), (''content'', content turn)]) of
             (a, h') \<Rightarrow>
               (case build_messages h' ts of
                  (Inl e, h'') \<Rightarrow> (Inl e, h'')
                | (Inr as, h'') \<Rightarrow> (Inr (a # as), h'')))
      | _ \<Rightarrow> (Inl AttributeError, h))"

text \<open>
  \<^verbatim>\<open>MemoryService.get_chat_messages\<close>: the new list of new message objects (or the
  exception), and the store and the service as the call leaves them.
\<close>

definition get_chat_messages ::
  "py_heap \<Rightarrow> memory_service \<Rightarrow> int \<Rightarrow> string
   \<Rightarrow> (py_exception + addr list) \<times> py_heap \<times> memory_service" where
  "get_chat_messages h ms now sid =
     (case get_history ms now sid of
        Inl e \<Rightarrow> (Inl e, h, ms)
      | Inr (ts, ms') \<Rightarrow>
          (case build_messages h ts of
             (r, h') \<Rightarrow> (r, h', ms')))"

section \<open>Webhook verification (whatsapp\_service.py, routes/webhook.py)\<close>

text \<open>\<^verbatim>\<open>WhatsAppService.verify_webhook\<close>; the first argument is \<^verbatim>\<open>self.verify_token\<close>.\<close>

definition verify_webhook :: "string \<Rightarrow> string \<Rightarrow> string \<Rightarrow> string \<Rightarrow> string option" where
  "verify_webhook verify_token mode token challenge =
     (if mode = ''subscribe'' \<and> token = verify_token then Some challenge else None)"

datatype http_response =
    PlainTextResponse string nat
  | HTTPException nat string

text \<open>
  The route \<^verbatim>\<open>GET /api/v1/webhook/whatsapp\<close>.  \<^verbatim>\<open>if result:\<close> holds for a string that
  is not empty, and fails for \<^verbatim>\<open>None\<close> and for the empty string.
\<close>

definition verify_webhook_route :: "string \<Rightarrow> (string \<rightharpoonup> string) \<Rightarrow> http_response" where
  "verify_webhook_route verify_token params =
     (let mode = (case params ''hub.mode'' of None \<Rightarrow> '''' | Some v \<Rightarrow> v);
          token = (case params ''hub.verify_token'' of None \<Rightarrow> '''' | Some v \<Rightarrow> v);
          challenge = (case params ''hub.challenge'' of None \<Rightarrow> '''' | Some v \<Rightarrow> v)
      in case verify_webhook verify_token mode token challenge of
           None \<Rightarrow> HTTPException 403 ''Webhook verification failed''
         | Some result \<Rightarrow>
             (if result \<noteq> '''' then PlainTextResponse result 200
              else HTTPException 403 ''Webhook verification failed''))"

section \<open>Strings\<close>

text \<open>
  A \<^verbatim>\<open>str\<close> is the list of its characters (code points below 256).  \<^verbatim>\<open>str.isspace\<close>
  holds on that range for the characters below.
\<close>

definition is_space :: "char \<Rightarrow> bool" where
  "is_space c = (of_char c \<in> {9, 10, 11, 12, 13, 28, 29, 30, 31, 32, 133, 160 :: nat})"

definition py_strip :: "string \<Rightarrow> string" where
  "py_strip s = rev (dropWhile is_space (rev (dropWhile is_space s)))"

fun py_join :: "string \<Rightarrow> string list \<Rightarrow> string" where
  "py_join sep [] = []"
| "py_join sep [x] = x"
| "py_join sep (x # y # ys) = x @ sep @ py_join sep (y # ys)"

text \<open>The decimal digit for a number below 10.\<close>

definition digit_char :: "nat \<Rightarrow> char" where
  "digit_char n = ''0123456789'' ! n"

text \<open>\<^verbatim>\<open>str(n)\<close> for a natural number, as an f-string renders it.\<close>

function str_of_nat :: "nat \<Rightarrow> string" where
  "str_of_nat n =
     (if n < 10 then [digit_char n] else str_of_nat (n div 10) @ [digit_char (n mod 10)])"
  by pat_completeness auto
termination
  by (relation "measure id") auto

section \<open>RAG engine (rag\_engine.py)\<close>

text \<open>A metadata value of the vector store, and the metadata \<^verbatim>\<open>dict\<close> of a chunk.\<close>

datatype meta_value = MStr string | MInt int

type_synonym metadata = "(string \<times> meta_value) list"

text \<open>The answer of \<^verbatim>\<open>collection.query\<close>: one inner list per query embedding.\<close>

record query_result =
  documents :: "string list list"
  metadatas :: "metadata list list"
  distances :: "real list list"

text \<open>The calls made to the vector store, in the order they are made.\<close>

datatype store_call =
    GetOrCreateCollection string
  | Upsert "string list" "py_val list list" "string list" "metadata list"

text \<open>
  The engine with its collaborators, none of which is code of this repository: the
  vector-store client (\<open>chroma_*\<close>; the collection handle has type \<open>'c\<close>), the
  inference client (\<open>feature_extraction\<close>), the text splitter, the PDF reader (the text
  of each page, or the failure of the reader or of a page), and MD5.  \<open>set_iteration\<close>
  is the order in which the interpreter enumerates a \<^verbatim>\<open>set\<close>: it takes the elements in
  the order they were added and returns them in the order \<^verbatim>\<open>list(s)\<close> lists them, which
  follows the hash table and is not defined by the language.  \<open>float_sum\<close> is
  the interpreter's \<^verbatim>\<open>sum\<close> on floats.
\<close>

record 'c rag_engine =
  collection_name :: string
  top_k :: int
  chroma_get_or_create :: "string \<Rightarrow> py_exception + 'c"
  chroma_query :: "'c \<Rightarrow> py_val list list \<Rightarrow> int \<Rightarrow> py_exception + query_result"
  chroma_upsert ::
    "'c \<Rightarrow> string list \<Rightarrow> py_val list list \<Rightarrow> string list \<Rightarrow> metadata list
     \<Rightarrow> py_exception + unit"
  feature_extraction :: "string \<Rightarrow> py_exception + api_result"
  split_text :: "string \<Rightarrow> string list"
  read_pdf :: "8 word list \<Rightarrow> py_exception + (py_exception + string) list"
  md5_hexdigest :: "string \<Rightarrow> string"
  set_iteration :: "meta_value list \<Rightarrow> meta_value list"
  float_sum :: float_sum

text \<open>A \<^verbatim>\<open>set\<close>, as the list of its elements in the order they were first added.\<close>

definition set_add :: "'a list \<Rightarrow> 'a \<Rightarrow> 'a list" where
  "set_add s x = (if x \<in> set s then s else s @ [x])"

text \<open>\<^verbatim>\<open>HFEmbeddings.embed_query\<close> and \<^verbatim>\<open>HFEmbeddings.embed_documents\<close>.\<close>

definition embed_query :: "'c rag_engine \<Rightarrow> string \<Rightarrow> py_exception + py_val list" where
  "embed_query eng text =
     (case feature_extraction eng text of Inl e \<Rightarrow> Inl e | Inr result \<Rightarrow> normalize (float_sum eng) result)"

fun embed_documents :: "'c rag_engine \<Rightarrow> string list \<Rightarrow> py_exception + py_val list list" where
  "embed_documents eng [] = Inr []"
| "embed_documents eng (text # texts) =
     (case feature_extraction eng text of
        Inl e \<Rightarrow> Inl e
      | Inr result \<Rightarrow>
          (case normalize (float_sum eng) result of
             Inl e \<Rightarrow> Inl e
           | Inr v \<Rightarrow>
               (case embed_documents eng texts of
                  Inl e \<Rightarrow> Inl e
                | Inr vs \<Rightarrow> Inr (v # vs))))"

text \<open>\<^verbatim>\<open>RAGEngine.extract_text_from_pdf\<close>; pages are numbered from 1.\<close>

fun page_parts :: "(py_exception + string) list \<Rightarrow> nat \<Rightarrow> py_exception + string list" where
  "page_parts [] i = Inr []"
| "page_parts (p # ps) i =
     (case p of
        Inl e \<Rightarrow> Inl e
      | Inr page_text \<Rightarrow>
          (case page_parts ps (Suc i) of
             Inl e \<Rightarrow> Inl e
           | Inr rest \<Rightarrow>
               Inr ((if page_text \<noteq> ''''
                     then [''[Page '' @ str_of_nat (i + 1) @ '']\<newline>'' @ page_text]
                     else []) @ rest)))"

definition extract_text_from_pdf :: "'c rag_engine \<Rightarrow> 8 word list \<Rightarrow> py_exception + string" where
  "extract_text_from_pdf eng pdf_data =
     (case read_pdf eng pdf_data of
        Inl e \<Rightarrow> Inl e
      | Inr pages \<Rightarrow>
          (case page_parts pages 0 of
             Inl e \<Rightarrow> Inl e
           | Inr text_parts \<Rightarrow> Inr (py_join ''\<newline>\<newline>'' text_parts)))"

text \<open>\<^verbatim>\<open>{**a, **b}\<close>: the entries of \<open>b\<close> are assigned, in order, into \<open>a\<close>.\<close>

definition dict_merge :: "('k \<times> 'v) list \<Rightarrow> ('k \<times> 'v) list \<Rightarrow> ('k \<times> 'v) list" where
  "dict_merge a b = foldl (\<lambda>d (k, v). dict_set d k v) a b"

text \<open>
  \<^verbatim>\<open>RAGEngine.ingest_document\<close>: what it returns or raises, and the calls it has made
  to the vector store by then.
\<close>

definition ingest_document ::
  "'c rag_engine \<Rightarrow> string \<Rightarrow> string \<Rightarrow> metadata option
   \<Rightarrow> (py_exception + nat) \<times> store_call list" where
  "ingest_document eng doc_content filename metadata =
     (let chunks = split_text eng doc_content in
      if chunks = [] then (Inr 0, [])
      else
        (case embed_documents eng chunks of
           Inl e \<Rightarrow> (Inl e, [])
         | Inr embeddings \<Rightarrow>
             (let doc_hash = take 8 (md5_hexdigest eng filename);
                  ids = map (\<lambda>i. doc_hash @ ''_chunk_'' @ str_of_nat i) [0..<length chunks];
                  metas = map (\<lambda>i. dict_merge
                                  [(''source'', MStr filename),
                                   (''chunk_index'', MInt (int i)),
                                   (''total_chunks'', MInt (int (length chunks)))]
                                  (case metadata of None \<Rightarrow> [] | Some m \<Rightarrow> m))
                               [0..<length chunks];
                  call1 = GetOrCreateCollection (collection_name eng);
                  call2 = Upsert ids embeddings chunks metas
              in case chroma_get_or_create eng (collection_name eng) of
                   Inl e \<Rightarrow> (Inl e, [call1])
                 | Inr collection \<Rightarrow>
                     (case chroma_upsert eng collection ids embeddings chunks metas of
                        Inl e \<Rightarrow> (Inl e, [call1, call2])
                      | Inr u \<Rightarrow> (Inr (length chunks), [call1, call2])))))"

text \<open>\<^verbatim>\<open>RAGEngine.ingest_pdf\<close>.\<close>

definition ingest_pdf ::
  "'c rag_engine \<Rightarrow> 8 word list \<Rightarrow> string \<Rightarrow> (py_exception + nat) \<times> store_call list" where
  "ingest_pdf eng pdf_data filename =
     (case extract_text_from_pdf eng pdf_data of
        Inl e \<Rightarrow> (Inl e, [])
      | Inr text \<Rightarrow>
          (if py_strip text = '''' then (Inr 0, [])
           else ingest_document eng text filename (Some [(''type'', MStr ''pdf'')])))"

text \<open>\<^verbatim>\<open>xs[0]\<close>.\<close>

fun py_first :: "'a list \<Rightarrow> py_exception + 'a" where
  "py_first [] = Inl IndexError"
| "py_first (x # xs) = Inr x"

text \<open>\<^verbatim>\<open>meta.get("source", "unknown")\<close>.\<close>

definition source_of :: "metadata \<Rightarrow> meta_value" where
  "source_of meta = (case dict_get meta ''source'' of None \<Rightarrow> MStr ''unknown'' | Some v \<Rightarrow> v)"

text \<open>
  The loop of \<^verbatim>\<open>retrieve_context\<close> over the zipped results, with \<^verbatim>\<open>context_parts\<close> and
  \<^verbatim>\<open>sources\<close> as accumulators.
\<close>

fun combine_results ::
  "(string \<times> metadata \<times> real) list \<Rightarrow> string list \<Rightarrow> meta_value list
   \<Rightarrow> string list \<times> meta_value list" where
  "combine_results [] context_parts sources = (context_parts, sources)"
| "combine_results ((doc, meta, distance) # rest) context_parts sources =
     combine_results rest (context_parts @ [doc]) (set_add sources (source_of meta))"

definition CONTEXT_SEPARATOR :: string where
  "CONTEXT_SEPARATOR = ''\<newline>\<newline>---\<newline>\<newline>''"

text \<open>\<^verbatim>\<open>k = top_k or self.top_k\<close>.\<close>

definition effective_k :: "'c rag_engine \<Rightarrow> int option \<Rightarrow> int" where
  "effective_k eng k =
     (case k of None \<Rightarrow> top_k eng | Some n \<Rightarrow> if n = 0 then top_k eng else n)"

text \<open>The \<^verbatim>\<open>try\<close> block of \<^verbatim>\<open>retrieve_context\<close>.\<close>

definition retrieve_try ::
  "'c rag_engine \<Rightarrow> string \<Rightarrow> int \<Rightarrow> py_exception + (string \<times> meta_value list)" where
  "retrieve_try eng query k =
     (case chroma_get_or_create eng (collection_name eng) of
        Inl e \<Rightarrow> Inl e
      | Inr collection \<Rightarrow>
     (case embed_query eng query of
        Inl e \<Rightarrow> Inl e
      | Inr query_embedding \<Rightarrow>
     (case chroma_query eng collection [query_embedding] k of
        Inl e \<Rightarrow> Inl e
      | Inr results \<Rightarrow>
     (case py_first (documents results) of
        Inl e \<Rightarrow> Inl e
      | Inr docs \<Rightarrow>
          if docs = [] then Inr ('''', [])
          else
     (case py_first (metadatas results) of
        Inl e \<Rightarrow> Inl e
      | Inr metas \<Rightarrow>
     (case py_first (distances results) of
        Inl e \<Rightarrow> Inl e
      | Inr dists \<Rightarrow>
          (case combine_results (zip docs (zip metas dists)) [] [] of
             (context_parts, sources) \<Rightarrow>
               Inr (py_join CONTEXT_SEPARATOR context_parts, set_iteration eng sources))))))))"

text \<open>
  \<^verbatim>\<open>RAGEngine.retrieve_context\<close>: \<^verbatim>\<open>except Exception\<close> turns every exception of the
  block into the empty result.
\<close>

definition retrieve_context ::
  "'c rag_engine \<Rightarrow> string \<Rightarrow> int option \<Rightarrow> py_exception + (string \<times> meta_value list)" where
  "retrieve_context eng query k =
     (case retrieve_try eng query (effective_k eng k) of
        Inl e \<Rightarrow> Inr ('''', [])
      | Inr r \<Rightarrow> Inr r)"

section \<open>Text pipeline (hf\_service.py, processor.py)\<close>

definition SYSTEM_PROMPT :: string where
  "SYSTEM_PROMPT =
     ''You are MultiSense Agent, an intelligent multi-modal AI assistant. You can:\<newline>'' @
     ''- Answer questions based on your knowledge\<newline>'' @
     ''- Analyze images and describe what you see  \<newline>'' @
     ''- Transcribe and respond to voice messages\<newline>'' @
     ''- Extract information from PDF documents using RAG (Retrieval Augmented Generation)\<newline>'' @
     ''- Maintain conversation context across messages\<newline>'' @
     ''\<newline>'' @
     ''Guidelines:\<newline>'' @
     ''- Be helpful, accurate, and concise\<newline>'' @
     ''- When answering from document context, cite the source\<newline>'' @
     ''- If you don't know something, say so honestly\<newline>'' @
     ''- For image analysis, be detailed and descriptive\<newline>'' @
     ''- Format responses clearly with bullet points or paragraphs as appropriate\<newline>'' @
     ''- Keep responses under 1500 characters when possible (WhatsApp message limit friendly)\<newline>'' @
     ''\<newline>'' @
     ''You are powered by open-source AI models via the HuggingFace Inference API.\<newline>''"

text \<open>
  \<^verbatim>\<open>HFService.chat_completion\<close>.  \<open>client n msgs\<close> is what the \<open>n\<close>-th call of the
  inference client answers to \<open>msgs\<close>: the content of the first choice, or an exception.
  The \<^verbatim>\<open>retry\<close> decorator stops after three attempts and then raises its own error.
\<close>

definition chat_completion ::
  "(nat \<Rightarrow> (string \<times> string) list list \<Rightarrow> py_exception + string)
   \<Rightarrow> (string \<times> string) list list \<Rightarrow> string option \<Rightarrow> py_exception + string" where
  "chat_completion client messages system_prompt =
     (let full_messages =
            (case system_prompt of
               None \<Rightarrow> []
             | Some p \<Rightarrow> if p \<noteq> '''' then [[(''role'', ''system''), (''content'', p)]] else [])
            @ messages
      in case client 0 full_messages of
           Inr r \<Rightarrow> Inr r
         | Inl e0 \<Rightarrow>
             (case client 1 full_messages of
                Inr r \<Rightarrow> Inr r
              | Inl e1 \<Rightarrow>
                  (case client 2 full_messages of
                     Inr r \<Rightarrow> Inr r
                   | Inl e2 \<Rightarrow> Inl (ExternalError ''RetryError''))))"

text \<open>The prompt built by \<^verbatim>\<open>process_text\<close> when the retrieved context is not empty.\<close>

definition augment :: "string \<Rightarrow> string \<Rightarrow> string" where
  "augment context text =
     ''Use the following context to answer the user's question. '' @
     ''If the context is not relevant, answer from your general knowledge.\<newline>\<newline>'' @
     ''--- Retrieved Context ---\<newline>'' @ context @ ''\<newline>--- End Context ---\<newline>\<newline>'' @
     ''User Question: '' @ text"

text \<open>
  \<^verbatim>\<open>if history: history[-1]["content"] = augmented_prompt\<close>: an assignment into the
  object that the last element of the list refers to.
\<close>

definition set_last_content :: "py_heap \<Rightarrow> addr list \<Rightarrow> string \<Rightarrow> py_exception + py_heap" where
  "set_last_content h history v =
     (if history = [] then Inr h
      else
        (case cells h (last history) of
           Some (DictObj d) \<Rightarrow>
             Inr (h\<lparr>cells := (cells h)(last history \<mapsto> DictObj (dict_set d ''content'' v))\<rparr>)
         | _ \<Rightarrow> Inl TypeError))"

text \<open>The contents of the message objects of a list, as the client serialises them.\<close>

fun read_messages :: "py_heap \<Rightarrow> addr list \<Rightarrow> py_exception + (string \<times> string) list list" where
  "read_messages h [] = Inr []"
| "read_messages h (a # as) =
     (case cells h a of
        Some (DictObj d) \<Rightarrow>
          (case read_messages h as of
             Inl e \<Rightarrow> Inl e
           | Inr ds \<Rightarrow> Inr (d # ds))
      | _ \<Rightarrow> Inl TypeError)"

record chat_response =
  response_text :: string
  response_session_id :: string
  response_sources :: "meta_value list"
  response_message_type :: message_type

text \<open>
  What a call of \<^verbatim>\<open>process_text\<close> leaves behind: the response or the exception, the
  message list handed to \<^verbatim>\<open>chat_completion\<close> (if the call got that far), and the store
  and the memory service afterwards.
\<close>

record text_run =
  outcome :: "py_exception + chat_response"
  sent_messages :: "(string \<times> string) list list option"
  final_heap :: py_heap
  final_memory :: memory_service

text \<open>
  \<^verbatim>\<open>MultiModalProcessor.process_text\<close>.  \<open>t1\<close>, \<open>t2\<close> and \<open>t3\<close> are the readings of the
  clock in the first \<^verbatim>\<open>add_turn\<close>, in \<^verbatim>\<open>get_chat_messages\<close> and in the second
  \<^verbatim>\<open>add_turn\<close>.  The elapsed wall-clock time of the response is left out.
\<close>

definition process_text ::
  "'c rag_engine \<Rightarrow> (nat \<Rightarrow> (string \<times> string) list list \<Rightarrow> py_exception + string)
   \<Rightarrow> py_heap \<Rightarrow> memory_service \<Rightarrow> int \<Rightarrow> int \<Rightarrow> int \<Rightarrow> string \<Rightarrow> string \<Rightarrow> bool
   \<Rightarrow> text_run" where
  "process_text eng client h ms t1 t2 t3 text sid use_rag =
     (case add_turn h ms t1 sid ''user'' text TEXT of
        (h1, ms1) \<Rightarrow>
     (case (if use_rag then retrieve_context eng text None else Inr ('''', [])) of
        Inl e \<Rightarrow>
          \<lparr>outcome = Inl e, sent_messages = None, final_heap = h1, final_memory = ms1\<rparr>
      | Inr (context, srcs) \<Rightarrow>
     (let augmented_prompt = (if context \<noteq> '''' then augment context text else text) in
      case get_chat_messages h1 ms1 t2 sid of
        (Inl e, h2, ms2) \<Rightarrow>
          \<lparr>outcome = Inl e, sent_messages = None, final_heap = h2, final_memory = ms2\<rparr>
      | (Inr history, h2, ms2) \<Rightarrow>
     (case set_last_content h2 history augmented_prompt of
        Inl e \<Rightarrow>
          \<lparr>outcome = Inl e, sent_messages = None, final_heap = h2, final_memory = ms2\<rparr>
      | Inr h3 \<Rightarrow>
     (case read_messages h3 history of
        Inl e \<Rightarrow>
          \<lparr>outcome = Inl e, sent_messages = None, final_heap = h3, final_memory = ms2\<rparr>
      | Inr msgs \<Rightarrow>
     (case chat_completion client msgs (Some SYSTEM_PROMPT) of
        Inl e \<Rightarrow>
          \<lparr>outcome = Inl e, sent_messages = Some msgs, final_heap = h3, final_memory = ms2\<rparr>
      | Inr response \<Rightarrow>
     (case add_turn h3 ms2 t3 sid ''assistant'' response TEXT of
        (h4, ms3) \<Rightarrow>
          \<lparr>outcome = Inr \<lparr>response_text = response, response_session_id = sid,
                           response_sources = srcs, response_message_type = TEXT\<rparr>,
           sent_messages = Some msgs, final_heap = h4, final_memory = ms3\<rparr>)))))))"

section \<open>Initial states and observations\<close>

text \<open>The store before any object is created.\<close>

definition empty_heap :: py_heap where
  "empty_heap = \<lparr>cells = (\<lambda>a. None), next_addr = 0\<rparr>"

text \<open>\<^verbatim>\<open>MemoryService.__init__\<close>, with the two settings it reads.\<close>

definition new_memory_service :: "int \<Rightarrow> int \<Rightarrow> memory_service" where
  "new_memory_service max_hist ttl =
     \<lparr>conversations = [], max_history = max_hist, ttl_hours = ttl\<rparr>"

text \<open>The turn list stored for a session (empty when the session is absent).\<close>

definition session_turns :: "memory_service \<Rightarrow> string \<Rightarrow> addr list" where
  "session_turns ms sid =
     (case dict_get (conversations ms) sid of None \<Rightarrow> [] | Some conv \<Rightarrow> turns conv)"

text \<open>The distinct elements of a list, in the order of their first appearance.\<close>

definition first_appearance :: "'a list \<Rightarrow> 'a list" where
  "first_appearance xs = foldl set_add [] xs"

section \<open>Example collaborators\<close>

text \<open>
  An engine whose vector store answers every query with \<open>answer\<close> and whose interpreter
  enumerates sets in the order \<open>ord\<close> and sums floats from left to right; its
  inference client returns the vector \<open>[1.0, 0.0]\<close> for every text; its splitter
  returns no chunk for blank text and the whole text as one chunk otherwise; its PDF
  reader finds one page without text in every file that is not empty.
\<close>

definition example_engine ::
  "(py_exception + query_result) \<Rightarrow> (meta_value list \<Rightarrow> meta_value list) \<Rightarrow> nat rag_engine" where
  "example_engine answer ord =
     \<lparr>collection_name = ''multisense_documents'',
      top_k = 5,
      chroma_get_or_create = (\<lambda>name. Inr 0),
      chroma_query = (\<lambda>c qs k. answer),
      chroma_upsert = (\<lambda>c ids es ds ms. Inr ()),
      feature_extraction =
        (\<lambda>t. Inr (Plain (Lst [Num (ieee_of_nat 1), Num (ieee_of_nat 0)]))),
      split_text = (\<lambda>s. if py_strip s = '''' then [] else [s]),
      read_pdf = (\<lambda>b. if b = [] then Inl (ExternalError ''empty file'') else Inr [Inr '''']),
      md5_hexdigest = (\<lambda>s. ''0123456789abcdef0123456789abcdef''),
      set_iteration = ord,
      float_sum = ieee_sum\<rparr>"

definition example_answer :: query_result where
  "example_answer =
     \<lparr>documents = [[''beta'', ''alpha'', ''gamma'']],
      metadatas = [[[(''source'', MStr ''b.pdf'')], [(''source'', MStr ''a.pdf'')],
                    [(''source'', MStr ''b.pdf'')]]],
      distances = [[0.1, 0.2, 0.3]]\<rparr>"

text \<open>
  A memory service with a 24-hour TTL holding a session last written at time 1000 and
  one last written at time 190000000000 (microseconds).
\<close>

definition example_memory :: memory_service where
  "example_memory =
     \<lparr>conversations =
        [(''old'', \<lparr>session_id = ''old'', turns = [0], created_at = 1000, updated_at = 1000\<rparr>),
         (''new'', \<lparr>session_id = ''new'', turns = [1], created_at = 190000000000,
                    updated_at = 190000000000\<rparr>)],
      max_history = 20, ttl_hours = 24\<rparr>"

text \<open>
  Consecutive calls of \<^verbatim>\<open>add_turn\<close> on one session; each call is given by its clock
  reading, role, content and message type.
\<close>

fun add_turns ::
  "py_heap \<Rightarrow> memory_service \<Rightarrow> string \<Rightarrow> (int \<times> string \<times> string \<times> message_type) list
   \<Rightarrow> py_heap \<times> memory_service" where
  "add_turns h ms sid [] = (h, ms)"
| "add_turns h ms sid ((now, r, c, mt) # calls) =
     (case add_turn h ms now sid r c mt of (h', ms') \<Rightarrow> add_turns h' ms' sid calls)"

section \<open>Properties of the float operations\<close>

text \<open>The operations evaluated at the floats of the examples below.\<close>

lemma bit_length_one: "bit_length 1 = 1"
  by (simp add: bit_length.simps)

lemmas round_eval = round_nearest_even_def quotient_exponent_def Let_def bit_length.simps

lemma ieee_of_nat_values:
  "ieee_of_nat 0 = Finite False 0 0"
  "ieee_of_nat (Suc 0) = Finite False 4503599627370496 (- 52)"
  "ieee_of_nat (Suc (Suc 0)) = Finite False 4503599627370496 (- 51)"
  "ieee_of_nat (Suc (Suc (Suc 0))) = Finite False 6755399441055744 (- 51)"
  "ieee_of_nat 3 = Finite False 6755399441055744 (- 51)"
  "ieee_of_nat 5 = Finite False 5629499534213120 (- 50)"
  by (simp_all add: ieee_of_nat_def round_eval)

text \<open>\<open>0.0 + 1.0\<close>, \<open>1.0 + 0.0\<close>, \<open>1.0 + 3.0\<close>, \<open>0.0 + 3.0\<close> and \<open>3.0 + 5.0\<close>.\<close>

lemma ieee_add_values:
  "ieee_add (Finite False 0 0) (Finite False 4503599627370496 (- 52))
     = Finite False 4503599627370496 (- 52)"
  "ieee_add (Finite False 4503599627370496 (- 52)) (Finite False 0 0)
     = Finite False 4503599627370496 (- 52)"
  "ieee_add (Finite False 4503599627370496 (- 52)) (Finite False 6755399441055744 (- 51))
     = Finite False 4503599627370496 (- 50)"
  "ieee_add (Finite False 0 0) (Finite False 6755399441055744 (- 51))
     = Finite False 6755399441055744 (- 51)"
  "ieee_add (Finite False 6755399441055744 (- 51)) (Finite False 5629499534213120 (- 50))
     = Finite False 4503599627370496 (- 49)"
  by (simp_all add: round_eval)

text \<open>\<open>1.0 / 3.0\<close>, \<open>4.0 / 2.0\<close> and \<open>8.0 / 2.0\<close>.\<close>

lemma ieee_div_values:
  "ieee_div (Finite False 4503599627370496 (- 52)) (Finite False 6755399441055744 (- 51))
     = Finite False 6004799503160661 (- 54)"
  "ieee_div (Finite False 4503599627370496 (- 50)) (Finite False 4503599627370496 (- 51))
     = Finite False 4503599627370496 (- 51)"
  "ieee_div (Finite False 4503599627370496 (- 49)) (Finite False 4503599627370496 (- 51))
     = Finite False 4503599627370496 (- 50)"
  by (simp_all add: round_eval)

lemma double_value_examples:
  "double_value (Finite False 0 0) = Some 0"
  "double_value (Finite False 4503599627370496 (- 52)) = Some 1"
  "double_value (Finite False 4503599627370496 (- 51)) = Some 2"
  "double_value (Finite False 6755399441055744 (- 51)) = Some 3"
  "double_value (Finite False 4503599627370496 (- 50)) = Some 4"
  "double_value (Finite False 5629499534213120 (- 50)) = Some 5"
  "double_value (Finite False 6004799503160661 (- 54))
     = Some (6004799503160661 / 18014398509481984)"
  by (simp_all add: double_value_def)

text \<open>
  The largest finite float is below \<open>2 ^ 1024\<close>: the sum of two floats near \<^verbatim>\<open>1e308\<close>
  is \<^verbatim>\<open>inf\<close>.  (\<open>Finite False 5010420900022432 971\<close> is the float \<^verbatim>\<open>1e308\<close>.)
\<close>

lemma bit_length_shift:
  "0 < n \<Longrightarrow> bit_length (n * 2 ^ k) = bit_length n + int k"
proof (induction k)
  case 0
  then show ?case by simp
next
  case (Suc k)
  have pos: "0 < n * 2 ^ Suc k" using Suc.prems by simp
  have "bit_length (n * 2 ^ Suc k) = 1 + bit_length (n * 2 ^ Suc k div 2)"
    using pos by (subst bit_length.simps) simp
  also have "n * 2 ^ Suc k div 2 = n * 2 ^ k" by simp
  finally show ?case using Suc by simp
qed

lemma quotient_exponent_1e308:
  "quotient_exponent (5010420900022432 * 2 ^ 971) 1 = 1023"
  "quotient_exponent (10020841800044864 * 2 ^ 971) 1 = 1024"
proof -
  have "bit_length (5010420900022432 * 2 ^ 971) = bit_length 5010420900022432 + int 971"
    by (rule bit_length_shift) simp
  moreover have "bit_length 5010420900022432 = 53"
    by (simp add: bit_length.simps)
  ultimately have b: "bit_length (5010420900022432 * 2 ^ 971) = 1024" by simp
  show "quotient_exponent (5010420900022432 * 2 ^ 971) 1 = 1023"
    unfolding quotient_exponent_def Let_def b bit_length_one by simp
  have "bit_length (10020841800044864 * 2 ^ 971) = bit_length 10020841800044864 + int 971"
    by (rule bit_length_shift) simp
  moreover have "bit_length 10020841800044864 = 54"
    by (simp add: bit_length.simps)
  ultimately have c: "bit_length (10020841800044864 * 2 ^ 971) = 1025" by simp
  show "quotient_exponent (10020841800044864 * 2 ^ 971) 1 = 1024"
    unfolding quotient_exponent_def Let_def c bit_length_one by simp
qed

lemma ieee_add_overflow:
  "ieee_add (Finite False 0 0) (Finite False 5010420900022432 971)
     = Finite False 5010420900022432 971"
  "ieee_add (Finite False 5010420900022432 971) (Finite False 5010420900022432 971)
     = Infinity False"
  by (simp_all add: round_nearest_even_def Let_def quotient_exponent_1e308 [simplified])

section \<open>Properties of the normaliser\<close>

lemma column_values_matrix:
  assumes "\<forall>t \<in> set ts. t < length m" and "\<forall>row \<in> set m. d < length row"
  shows "column_values (map (\<lambda>row. Lst (map Num row)) m) d ts
         = Inr (map (\<lambda>t. m ! t ! d) ts)"
  using assms
proof (induction ts)
  case Nil
  then show ?case by simp
next
  case (Cons t ts)
  then have t: "t < length m" by simp
  then have "d < length (m ! t)" using Cons.prems(2) by simp
  with t Cons show ?case by simp
qed

lemma column_upt:
  "map (\<lambda>t. m ! t ! d) [0..<length m] = map (\<lambda>row. row ! d) m"
proof -
  have "map (\<lambda>t. m ! t ! d) [0..<length m]
        = map (\<lambda>row. row ! d) (map ((!) m) [0..<length m])"
    by simp
  then show ?thesis by (simp only: map_nth)
qed

lemma mean_dims_matrix:
  assumes "m \<noteq> []" and "\<forall>row \<in> set m. length row = D" and "\<forall>d \<in> set ds. d < D"
  shows "mean_dims fsum (map (\<lambda>row. Lst (map Num row)) m) ds
         = Inr (map (\<lambda>d. Num (ieee_div (fsum (map (\<lambda>row. row ! d) m))
                                         (ieee_of_nat (length m)))) ds)"
  using assms(3)
proof (induction ds)
  case Nil
  then show ?case by simp
next
  case (Cons d ds)
  then have d: "d < D" by simp
  have rows: "\<forall>row \<in> set m. d < length row" using assms(2) d by simp
  have "column_values (map (\<lambda>row. Lst (map Num row)) m) d [0..<length m]
        = Inr (map (\<lambda>row. row ! d) m)"
    using column_values_matrix [OF _ rows, of "[0..<length m]"]
    by (simp add: column_upt)
  moreover have "length m \<noteq> 0" using assms(1) by simp
  ultimately show ?case using Cons
    by (simp add: py_truediv_def)
qed

lemma normalize_val_matrix:
  assumes "m \<noteq> []" and "\<forall>row \<in> set m. length row = D"
  shows "normalize_val fsum (matrix_val m)
         = Inr (map (\<lambda>d. Num (ieee_div (fsum (map (\<lambda>row. row ! d) m))
                                         (ieee_of_nat (length m)))) [0..<D])"
proof -
  from assms(1) obtain r rs where m: "m = r # rs" by (cases m) auto
  have len: "length r = D" using assms(2) m by simp
  have red: "reduce_3d (map (\<lambda>row. Lst (map Num row)) m) = map (\<lambda>row. Lst (map Num row)) m"
    unfolding m by (cases r) simp_all
  have "normalize_val fsum (matrix_val m) = pool fsum (map (\<lambda>row. Lst (map Num row)) m)"
    using red unfolding matrix_val_def m by simp
  also have "\<dots> = mean_dims fsum (map (\<lambda>row. Lst (map Num row)) m) [0..<D]"
    unfolding m using len by simp
  also have "\<dots> = Inr (map (\<lambda>d. Num (ieee_div (fsum (map (\<lambda>row. row ! d) m))
                                                (ieee_of_nat (length m)))) [0..<D])"
    using mean_dims_matrix [OF assms(1) assms(2), of "[0..<D]"] by simp
  finally show ?thesis .
qed

lemma reduce_3d_rank2:
  assumes "is_rank1 x"
  shows "reduce_3d (x # xs) = x # xs"
proof (cases x)
  case (Lst g)
  then show ?thesis using assms
    by (cases g; cases "hd g") simp_all
qed (use assms in simp_all)

lemma normalize_val_rank3_first:
  assumes "is_rank2 f"
  shows "normalize_val fsum (Lst (f # rest)) = normalize_val fsum f"
proof -
  from assms obtain rows where f: "f = Lst rows" and rows: "list_all is_rank1 rows"
    by (cases f) simp_all
  show ?thesis
  proof (cases rows)
    case Nil
    then show ?thesis unfolding f by simp
  next
    case (Cons r rs)
    then have r1: "is_rank1 r" using rows by simp
    then obtain g where r: "r = Lst g" by (cases r) simp_all
    have "normalize_val fsum (Lst (f # rest)) = pool fsum (Lst g # rs)"
      unfolding f Cons r by simp
    moreover have "normalize_val fsum f = pool fsum (Lst g # rs)"
      unfolding f Cons using reduce_3d_rank2 [OF r1, of rs] r by simp
    ultimately show ?thesis by simp
  qed
qed

text \<open>
  The matrices of the examples: \<open>[[1.0, 3.0], [3.0, 5.0]]\<close>, whose column sums and
  means are floats, and \<open>[[1.0], [0.0], [0.0]]\<close>, whose mean \<open>1 / 3\<close> is not.
\<close>

lemmas normalize_eval =
  matrix_val_def float_matrix_def py_truediv_def ieee_sum_def
  ieee_of_nat_values ieee_add_values ieee_div_values

lemma normalize_rank2_example:
  "normalize ieee_sum (Plain (matrix_val (float_matrix [[1, 3], [3, 5]])))
     = Inr [Num (Finite False 4503599627370496 (- 51)), Num (Finite False 4503599627370496 (- 50))]"
  by (simp add: normalize_eval del: ieee_add.simps ieee_div.simps)

lemma normalize_rank2_example_exact:
  "map double_value [Finite False 4503599627370496 (- 51), Finite False 4503599627370496 (- 50)]
     = [Some (column_mean [[1, 3], [3, 5]] 0), Some (column_mean [[1, 3], [3, 5]] 1)]"
  by (simp add: double_value_examples column_mean_def lessThan_Suc numeral_2_eq_2)

text \<open>
  The quotient \<open>1.0 / 3\<close> is rounded whichever summation the interpreter uses, as long
  as it adds \<open>1.0\<close>, \<open>0.0\<close> and \<open>0.0\<close> to \<open>1.0\<close>.
\<close>

lemma normalize_third_any_sum:
  assumes "fsum [Finite False 4503599627370496 (- 52), Finite False 0 0, Finite False 0 0]
           = Finite False 4503599627370496 (- 52)"
  shows "normalize fsum (Plain (matrix_val (float_matrix [[1], [0], [0]])))
         = Inr [Num (Finite False 6004799503160661 (- 54))]"
  using assms by (simp add: normalize_eval del: ieee_add.simps ieee_div.simps)

text \<open>
  The sum of a column overflows although its mean is a float: \<open>[[1e308], [1e308]]\<close> is
  normalised to \<open>[inf]\<close>.
\<close>

lemma normalize_overflow_example:
  "normalize ieee_sum
     (Plain (matrix_val [[Finite False 5010420900022432 971], [Finite False 5010420900022432 971]]))
     = Inr [Num (Infinity False)]"
  by (simp add: matrix_val_def py_truediv_def ieee_sum_def ieee_of_nat_values ieee_add_overflow
      del: ieee_add.simps)

section \<open>Claims about the normaliser\<close>

text \<open>
  C2, as stated: the \<open>d\<close>-th output is the arithmetic mean over the tokens of the
  \<open>d\<close>-th entries.  The code adds and divides floats, and both operations round.  For
  the three token rows \<open>[1.0]\<close>, \<open>[0.0]\<close>, \<open>[0.0]\<close>, whose mean is \<open>1 / 3\<close>, both
  normalisers return the float \<open>6004799503160661 / 2 ^ 54\<close> (printed
  \<^verbatim>\<open>0.3333333333333333\<close>), which is less than \<open>1 / 3\<close>.
\<close>

theorem normalize_rank2_mean_counterexample:
  "normalize ieee_sum (Plain (matrix_val (float_matrix [[1], [0], [0]])))
     = Inr [Num (Finite False 6004799503160661 (- 54))]
   \<and> normalize_embedding ieee_sum (Plain (matrix_val (float_matrix [[1], [0], [0]])))
     = Inr [Num (Finite False 6004799503160661 (- 54))]
   \<and> map (map double_value) (float_matrix [[1], [0], [0]]) = [[Some 1], [Some 0], [Some 0]]
   \<and> column_mean [[1], [0], [0]] 0 = 1 / 3
   \<and> double_value (Finite False 6004799503160661 (- 54))
     = Some (6004799503160661 / 18014398509481984)
   \<and> (6004799503160661 / 18014398509481984 :: real) < 1 / 3"
  by (simp add: normalize_eval double_value_examples column_mean_def
      del: ieee_add.simps ieee_div.simps)

text \<open>
  C2, amended.  A rank-2 input that is a rectangular list of \<open>T \<ge> 1\<close> token rows of
  width \<open>D\<close> is normalised, by both normalisers, to a list of exactly \<open>D\<close> floats, the
  \<open>d\<close>-th being the float quotient, rounded to nearest, of the interpreter's float sum
  of the \<open>d\<close>-th entries of the rows by the float of \<open>T\<close>.
\<close>

theorem normalize_rank2_float_mean:
  assumes "m \<noteq> []" and "\<forall>row \<in> set m. length row = D"
  shows "\<exists>out. normalize fsum (Plain (matrix_val m)) = Inr out
             \<and> normalize_embedding fsum (Plain (matrix_val m)) = Inr out
             \<and> length out = D
             \<and> (\<forall>d<D. out ! d = Num (ieee_div (fsum (map (\<lambda>row. row ! d) m))
                                               (ieee_of_nat (length m))))"
  using normalize_val_matrix [OF assms] by simp

theorem normalize_rank2_float_mean_witness:
  "float_matrix [[1, 3], [3, 5]] \<noteq> []
   \<and> list_all (\<lambda>row. length row = 2) (float_matrix [[1, 3], [3, 5]])
   \<and> (\<exists>out. normalize ieee_sum (Plain (matrix_val (float_matrix [[1, 3], [3, 5]]))) = Inr out
             \<and> normalize_embedding ieee_sum (Plain (matrix_val (float_matrix [[1, 3], [3, 5]])))
               = Inr out
             \<and> length out = 2
             \<and> out ! 0 = Num (Finite False 4503599627370496 (- 51))
             \<and> out ! 1 = Num (Finite False 4503599627370496 (- 50)))"
proof -
  let ?m = "float_matrix [[1, 3], [3, 5]]"
  have h1: "?m \<noteq> []" by (simp add: float_matrix_def)
  have h2: "\<forall>row \<in> set ?m. length row = 2" by (simp add: float_matrix_def)
  have e0: "ieee_div (ieee_sum (map (\<lambda>row. row ! 0) ?m)) (ieee_of_nat (length ?m))
            = Finite False 4503599627370496 (- 51)"
    by (simp add: normalize_eval del: ieee_add.simps ieee_div.simps)
  have e1: "ieee_div (ieee_sum (map (\<lambda>row. row ! 1) ?m)) (ieee_of_nat (length ?m))
            = Finite False 4503599627370496 (- 50)"
    by (simp add: normalize_eval del: ieee_add.simps ieee_div.simps)
  from normalize_rank2_float_mean [OF h1 h2, where fsum = ieee_sum] obtain out where
    n: "normalize ieee_sum (Plain (matrix_val ?m)) = Inr out"
    and ne: "normalize_embedding ieee_sum (Plain (matrix_val ?m)) = Inr out"
    and len: "length out = 2"
    and el: "\<forall>d<2. out ! d = Num (ieee_div (ieee_sum (map (\<lambda>row. row ! d) ?m))
                                            (ieee_of_nat (length ?m)))"
    by blast
  have o0: "out ! 0 = Num (Finite False 4503599627370496 (- 51))"
    using el e0 by simp
  have o1: "out ! 1 = Num (Finite False 4503599627370496 (- 50))"
    using el e1 by simp
  have l: "list_all (\<lambda>row. length row = 2) ?m" by (simp add: float_matrix_def)
  show ?thesis using h1 l n ne len o0 o1 by blast
qed

text \<open>
  C8, as stated: an empty result yields a one-element vector.  The code returns
  \<^verbatim>\<open>list(result)\<close> for the empty list, which is empty.
\<close>

theorem normalize_empty_counterexample:
  "normalize ieee_sum (Plain (Lst [])) = Inr []
   \<and> normalize_embedding ieee_sum (Plain (Lst [])) = Inr []"
  by simp

text \<open>
  C8, amended.  A result that is a number (not a sequence) is normalised to the
  single-element vector holding that number; the empty list is normalised to the empty
  list.
\<close>

theorem normalize_scalar_and_empty:
  "normalize fsum (Plain (Num r)) = Inr [Num r]
   \<and> normalize_embedding fsum (Plain (Num r)) = Inr [Num r]
   \<and> normalize fsum (Plain (Lst [])) = Inr []
   \<and> normalize_embedding fsum (Plain (Lst [])) = Inr []"
  by simp

text \<open>
  C9.  A rank-3 input, a non-empty list whose first element is a rank-2 batch element,
  is normalised to what normalising that first element alone gives.
\<close>

theorem normalize_rank3_first:
  assumes "is_rank2 f"
  shows "normalize fsum (Plain (Lst (f # rest))) = normalize fsum (Plain f)
         \<and> normalize_embedding fsum (Plain (Lst (f # rest))) = normalize_embedding fsum (Plain f)"
  using normalize_val_rank3_first [OF assms] by simp

theorem normalize_rank3_first_witness:
  "is_rank2 (matrix_val (float_matrix [[1, 3], [3, 5]]))
   \<and> normalize ieee_sum
       (Plain (Lst [matrix_val (float_matrix [[1, 3], [3, 5]]), matrix_val (float_matrix [[7, 9]])]))
       = Inr [Num (Finite False 4503599627370496 (- 51)), Num (Finite False 4503599627370496 (- 50))]"
  using normalize_rank3_first [where f = "matrix_val (float_matrix [[1, 3], [3, 5]])"
      and rest = "[matrix_val (float_matrix [[7, 9]])]" and fsum = ieee_sum]
  by (simp add: normalize_eval del: ieee_add.simps ieee_div.simps)

section \<open>Claims about webhook verification\<close>

text \<open>
  C6 at the failing input: the mode is \<^verbatim>\<open>subscribe\<close>, the token is the configured
  secret and the challenge is empty (or absent).  The service accepts and returns the
  challenge; the route answers 403.
\<close>

theorem verify_webhook_route_empty_challenge:
  "verify_webhook ''multisense-verify-token'' ''subscribe'' ''multisense-verify-token'' ''''
     = Some ''''
   \<and> verify_webhook_route ''multisense-verify-token''
        [''hub.mode'' \<mapsto> ''subscribe'', ''hub.verify_token'' \<mapsto> ''multisense-verify-token'']
      = HTTPException 403 ''Webhook verification failed''"
  by (simp add: verify_webhook_route_def verify_webhook_def)

text \<open>For a challenge that is not empty the route does what C6 says.\<close>

lemma verify_webhook_route_nonempty_challenge:
  assumes "params ''hub.mode'' = Some mode" "params ''hub.verify_token'' = Some token"
    "params ''hub.challenge'' = Some challenge" "challenge \<noteq> ''''"
  shows "verify_webhook_route secret params =
         (if mode = ''subscribe'' \<and> token = secret then PlainTextResponse challenge 200
          else HTTPException 403 ''Webhook verification failed'')"
  using assms by (simp add: verify_webhook_route_def verify_webhook_def)

section \<open>Claims about conversation memory\<close>

text \<open>
  C3 at the failing input: the configured maximum is 0.  The slice
  \<^verbatim>\<open>conv.turns[-0:]\<close> is the whole list, so nothing is trimmed: after two calls the
  session holds two turns.
\<close>

theorem add_turn_zero_max_not_trimmed:
  "(case add_turn empty_heap (new_memory_service 0 24) 1000 ''s'' ''user'' ''one'' TEXT of
      (h1, ms1) \<Rightarrow>
        (case add_turn h1 ms1 2000 ''s'' ''assistant'' ''two'' TEXT of
           (h2, ms2) \<Rightarrow> (max_history ms2, session_turns ms1 ''s'', session_turns ms2 ''s'')))
   = (0, [0], [0, 1])"
  by (simp add: add_turn_def heap_alloc_def empty_heap_def new_memory_service_def
      session_turns_def py_slice_from_def)

section \<open>Containers, the expiry sweep and the result loop\<close>

lemma dict_get_mem: "dict_get d k = Some v \<Longrightarrow> (k, v) \<in> set d"
  by (induction d) (auto split: if_splits)

lemma dict_get_None_iff: "dict_get d k = None \<longleftrightarrow> k \<notin> set (map fst d)"
  by (induction d) (auto split: if_splits)

lemma dict_del_filter: "dict_del d k = filter (\<lambda>p. fst p \<noteq> k) d"
proof (induction d)
  case Nil
  show ?case by simp
next
  case (Cons p d)
  then show ?case by (cases p) simp_all
qed

lemma foldl_dict_del_filter: "foldl dict_del d ks = filter (\<lambda>p. fst p \<notin> set ks) d"
proof (induction ks arbitrary: d)
  case Nil
  show ?case by simp
next
  case (Cons k ks)
  have "foldl dict_del d (k # ks) = foldl dict_del (filter (\<lambda>p. fst p \<noteq> k) d) ks"
    by (simp only: foldl_Cons dict_del_filter)
  also have "\<dots> = filter (\<lambda>p. fst p \<notin> set ks) (filter (\<lambda>p. fst p \<noteq> k) d)"
    by (rule Cons.IH)
  also have "\<dots> = filter (\<lambda>p. fst p \<notin> set (k # ks)) d"
    by (simp add: conj_commute)
  finally show ?case .
qed

lemma dict_get_filter:
  "dict_get (filter (\<lambda>p. fst p \<notin> K) d) k = (if k \<in> K then None else dict_get d k)"
proof (induction d)
  case Nil
  show ?case by simp
next
  case (Cons p d)
  obtain a b where p: "p = (a, b)" by (cases p)
  show ?case
  proof (cases "k \<in> K")
    case True
    then show ?thesis using Cons unfolding p by simp
  next
    case False
    then show ?thesis using Cons unfolding p by (cases "a = k") simp_all
  qed
qed

lemma expired_keys:
  "set [sid. (sid, conv) \<leftarrow> d, updated_at conv < cutoff]
   = {sid. \<exists>conv. (sid, conv) \<in> set d \<and> updated_at conv < cutoff}"
  by (induction d) auto

lemma combine_results_eq:
  "combine_results rows parts srcs =
   (parts @ map fst rows, foldl set_add srcs (map (\<lambda>r. source_of (fst (snd r))) rows))"
  by (induction rows parts srcs rule: combine_results.induct) simp_all

lemma foldl_set_add_distinct: "distinct s \<Longrightarrow> distinct (foldl set_add s xs)"
  by (induction xs arbitrary: s) (simp_all add: set_add_def)

lemma foldl_set_add_set: "set (foldl set_add s xs) = set s \<union> set xs"
  by (induction xs arbitrary: s) (auto simp: set_add_def)

lemma first_appearance_distinct: "distinct (first_appearance xs)"
  by (simp add: first_appearance_def foldl_set_add_distinct)

lemma first_appearance_set: "set (first_appearance xs) = set xs"
  by (simp add: first_appearance_def foldl_set_add_set)

lemma zip3_docs:
  "map fst (zip docs (zip metas dists))
   = take (min (length docs) (min (length metas) (length dists))) docs"
  by (simp add: map_fst_zip_take)

lemma zip3_metas:
  "map (\<lambda>r. fst (snd r)) (zip docs (zip metas dists))
   = take (min (length docs) (min (length metas) (length dists))) metas"
proof -
  have "map (\<lambda>r. fst (snd r)) (zip docs (zip metas dists))
        = map fst (map snd (zip docs (zip metas dists)))" by simp
  also have "\<dots> = map fst (take (min (length docs) (length (zip metas dists))) (zip metas dists))"
    by (simp only: map_snd_zip_take)
  also have "\<dots> = take (min (length docs) (min (length metas) (length dists))) metas"
    by (simp add: take_map [symmetric] map_fst_zip_take min.commute min.left_commute)
  finally show ?thesis .
qed

lemma cleanup_expired_result:
  assumes "timedelta_hours (ttl_hours ms) = Inr delta" and "datetime_sub now delta = Inr cutoff"
  shows "\<exists>d'. cleanup_expired ms now = Inr (ms\<lparr>conversations := d'\<rparr>)
           \<and> (\<forall>s conv. dict_get (conversations ms) s = Some conv \<and> updated_at conv < cutoff
                  \<longrightarrow> dict_get d' s = None)
           \<and> (\<forall>s c. (s, c) \<in> set d' \<longrightarrow> \<not> updated_at c < cutoff)"
proof -
  define K where "K = set [sid. (sid, conv) \<leftarrow> conversations ms, updated_at conv < cutoff]"
  have K: "K = {s. \<exists>conv. (s, conv) \<in> set (conversations ms) \<and> updated_at conv < cutoff}"
    unfolding K_def by (rule expired_keys)
  define d' where "d' = filter (\<lambda>p. fst p \<notin> K) (conversations ms)"
  have "cleanup_expired ms now =
        Inr (ms\<lparr>conversations := foldl dict_del (conversations ms)
               [sid. (sid, conv) \<leftarrow> conversations ms, updated_at conv < cutoff]\<rparr>)"
    using assms by (simp add: cleanup_expired_def)
  then have 1: "cleanup_expired ms now = Inr (ms\<lparr>conversations := d'\<rparr>)"
    by (simp only: foldl_dict_del_filter d'_def K_def)
  have 2: "dict_get d' s = None"
    if "dict_get (conversations ms) s = Some conv \<and> updated_at conv < cutoff" for s conv
  proof -
    have "(s, conv) \<in> set (conversations ms)" using that by (simp add: dict_get_mem)
    then have "s \<in> K" using that unfolding K by blast
    then show ?thesis unfolding d'_def by (simp add: dict_get_filter)
  qed
  have 3: "\<not> updated_at c < cutoff" if "(s, c) \<in> set d'" for s c
  proof -
    from that have "(s, c) \<in> set (conversations ms)" and "s \<notin> K" by (simp_all add: d'_def)
    then show ?thesis unfolding K by blast
  qed
  show ?thesis
  proof (intro exI conjI allI impI)
    show "cleanup_expired ms now = Inr (ms\<lparr>conversations := d'\<rparr>)" by (rule 1)
    show "dict_get d' s = None"
      if "dict_get (conversations ms) s = Some conv \<and> updated_at conv < cutoff" for s conv
      using that by (rule 2)
    show "\<not> updated_at c < cutoff" if "(s, c) \<in> set d'" for s c using that by (rule 3)
  qed
qed

text \<open>
  C7.  Let the cutoff, the current time minus the configured TTL, be a date, and let a
  session's \<^verbatim>\<open>updated_at\<close> be older than it.  Then \<^verbatim>\<open>get_history\<close> on that session
  returns the empty list and \<^verbatim>\<open>get_active_sessions\<close> does not list it; and after
  \<^verbatim>\<open>get_history\<close> on any session, or \<^verbatim>\<open>get_active_sessions\<close>, the session is absent
  and no stored session is older than the cutoff.
\<close>

theorem expired_session_swept_on_read:
  assumes "timedelta_hours (ttl_hours ms) = Inr delta"
    and "datetime_sub now delta = Inr cutoff"
    and "dict_get (conversations ms) sid = Some conv"
    and "updated_at conv < cutoff"
  shows "(\<exists>ms'. get_history ms now sid = Inr ([], ms'))
       \<and> (\<exists>keys ms'. get_active_sessions ms now = Inr (keys, ms') \<and> sid \<notin> set keys)
       \<and> (\<forall>other. \<exists>ts ms'. get_history ms now other = Inr (ts, ms')
              \<and> dict_get (conversations ms') sid = None
              \<and> (\<forall>s c. (s, c) \<in> set (conversations ms') \<longrightarrow> \<not> updated_at c < cutoff))
       \<and> (\<exists>keys ms'. get_active_sessions ms now = Inr (keys, ms')
              \<and> dict_get (conversations ms') sid = None
              \<and> (\<forall>s c. (s, c) \<in> set (conversations ms') \<longrightarrow> \<not> updated_at c < cutoff))"
proof -
  from cleanup_expired_result [OF assms(1,2)] obtain d' where
    c0: "cleanup_expired ms now = Inr (ms\<lparr>conversations := d'\<rparr>)"
    and gone: "\<forall>s conv. dict_get (conversations ms) s = Some conv \<and> updated_at conv < cutoff
                  \<longrightarrow> dict_get d' s = None"
    and rest: "\<forall>s c. (s, c) \<in> set d' \<longrightarrow> \<not> updated_at c < cutoff"
    by (elim exE conjE)
  define ms' where "ms' = ms\<lparr>conversations := d'\<rparr>"
  have c: "cleanup_expired ms now = Inr ms'" unfolding ms'_def by (rule c0)
  have convs: "conversations ms' = d'" by (simp add: ms'_def)
  have none: "dict_get d' sid = None" using gone assms(3,4) by simp
  have notin: "sid \<notin> set (dict_keys d')"
    using none by (simp add: dict_get_None_iff dict_keys_def)
  have 1: "\<exists>ms'. get_history ms now sid = Inr ([], ms')"
    by (simp add: get_history_def c convs none)
  have 2: "\<exists>keys ms'. get_active_sessions ms now = Inr (keys, ms') \<and> sid \<notin> set keys"
    by (simp add: get_active_sessions_def c convs notin)
  have 3: "\<exists>ts ms''. get_history ms now other = Inr (ts, ms'')
              \<and> dict_get (conversations ms'') sid = None
              \<and> (\<forall>s c. (s, c) \<in> set (conversations ms'') \<longrightarrow> \<not> updated_at c < cutoff)" for other
  proof (cases "dict_get d' other")
    case None
    then show ?thesis using none rest by (simp add: get_history_def c convs)
  next
    case (Some cv)
    then show ?thesis using none rest by (simp add: get_history_def c convs)
  qed
  have 4: "\<exists>keys ms''. get_active_sessions ms now = Inr (keys, ms'')
              \<and> dict_get (conversations ms'') sid = None
              \<and> (\<forall>s c. (s, c) \<in> set (conversations ms'') \<longrightarrow> \<not> updated_at c < cutoff)"
    using none rest by (simp add: get_active_sessions_def c convs)
  show ?thesis by (intro conjI allI 1 2 3 4)
qed

theorem expired_session_swept_on_read_witness:
  "timedelta_hours (ttl_hours example_memory) = Inr 86400000000
   \<and> datetime_sub 200000000000 86400000000 = Inr 113600000000
   \<and> dict_get (conversations example_memory) ''old''
       = Some \<lparr>session_id = ''old'', turns = [0], created_at = 1000, updated_at = 1000\<rparr>
   \<and> updated_at \<lparr>session_id = ''old'', turns = [0], created_at = 1000, updated_at = 1000\<rparr>
       < (113600000000 :: int)
   \<and> (\<exists>ms'. get_history example_memory 200000000000 ''old'' = Inr ([], ms'))
   \<and> (\<exists>keys ms'. get_active_sessions example_memory 200000000000 = Inr (keys, ms')
          \<and> ''old'' \<notin> set keys)"
proof -
  have a: "timedelta_hours (ttl_hours example_memory) = Inr 86400000000"
    by (simp add: example_memory_def timedelta_hours_def)
  have b: "datetime_sub 200000000000 86400000000 = Inr 113600000000"
    by (simp add: datetime_sub_def DATETIME_END_def)
  have c: "dict_get (conversations example_memory) ''old''
       = Some \<lparr>session_id = ''old'', turns = [0], created_at = 1000, updated_at = 1000\<rparr>"
    by (simp add: example_memory_def)
  have d: "updated_at \<lparr>session_id = ''old'', turns = [0], created_at = 1000, updated_at = 1000\<rparr>
       < (113600000000 :: int)"
    by simp
  show ?thesis
    using a b c d expired_session_swept_on_read [OF a b c d] by simp
qed

lemma expired_session_example:
  "get_active_sessions example_memory 200000000000
   = Inr ([''new''], example_memory\<lparr>conversations := [(''new'', \<lparr>session_id = ''new'', turns = [1], created_at = 190000000000,
                    updated_at = 190000000000\<rparr>)]\<rparr>)"
  by (simp add: get_active_sessions_def cleanup_expired_def example_memory_def
      timedelta_hours_def datetime_sub_def DATETIME_END_def dict_keys_def)

section \<open>Claims about retrieval\<close>

text \<open>
  C4.  \<^verbatim>\<open>retrieve_context\<close> always returns a pair and never raises; when the collection
  lookup, the computation of the query embedding or the nearest-neighbour search raises,
  or when the search returns no result, the pair is the empty context and the empty
  source list.
\<close>

theorem retrieve_context_degrades:
  "(\<exists>r. retrieve_context eng query k = Inr r)
   \<and> ((\<exists>e. chroma_get_or_create eng (collection_name eng) = Inl e)
        \<longrightarrow> retrieve_context eng query k = Inr ('''', []))
   \<and> ((\<exists>e. embed_query eng query = Inl e)
        \<longrightarrow> retrieve_context eng query k = Inr ('''', []))
   \<and> (\<forall>c q. chroma_get_or_create eng (collection_name eng) = Inr c
          \<and> embed_query eng query = Inr q
          \<and> (\<exists>e. chroma_query eng c [q] (effective_k eng k) = Inl e)
        \<longrightarrow> retrieve_context eng query k = Inr ('''', []))
   \<and> (\<forall>c q res rest. chroma_get_or_create eng (collection_name eng) = Inr c
          \<and> embed_query eng query = Inr q
          \<and> chroma_query eng c [q] (effective_k eng k) = Inr res
          \<and> documents res = [] # rest
        \<longrightarrow> retrieve_context eng query k = Inr ('''', []))"
proof (intro conjI allI impI)
  show "\<exists>r. retrieve_context eng query k = Inr r"
    by (cases "retrieve_try eng query (effective_k eng k)") (simp_all add: retrieve_context_def)
next
  assume "\<exists>e. chroma_get_or_create eng (collection_name eng) = Inl e"
  then show "retrieve_context eng query k = Inr ('''', [])"
    by (auto simp: retrieve_context_def retrieve_try_def)
next
  assume "\<exists>e. embed_query eng query = Inl e"
  then show "retrieve_context eng query k = Inr ('''', [])"
    by (cases "chroma_get_or_create eng (collection_name eng)")
       (auto simp: retrieve_context_def retrieve_try_def)
next
  fix c q
  assume "chroma_get_or_create eng (collection_name eng) = Inr c
          \<and> embed_query eng query = Inr q
          \<and> (\<exists>e. chroma_query eng c [q] (effective_k eng k) = Inl e)"
  then show "retrieve_context eng query k = Inr ('''', [])"
    by (auto simp: retrieve_context_def retrieve_try_def)
next
  fix c q res rest
  assume "chroma_get_or_create eng (collection_name eng) = Inr c
          \<and> embed_query eng query = Inr q
          \<and> chroma_query eng c [q] (effective_k eng k) = Inr res
          \<and> documents res = [] # rest"
  then show "retrieve_context eng query k = Inr ('''', [])"
    by (simp add: retrieve_context_def retrieve_try_def)
qed

theorem retrieve_context_degrades_witness:
  "chroma_query (example_engine (Inl (ExternalError ''connection refused'')) id) 0
       [[Num (ieee_of_nat 1), Num (ieee_of_nat 0)]] (effective_k (example_engine (Inl (ExternalError ''connection refused'')) id) None)
     = Inl (ExternalError ''connection refused'')
   \<and> retrieve_context (example_engine (Inl (ExternalError ''connection refused'')) id)
        ''what is in the report'' None = Inr ('''', [])"
  using retrieve_context_degrades
    [of "example_engine (Inl (ExternalError ''connection refused'')) id" "''what is in the report''" None]
  by (simp add: example_engine_def embed_query_def)

lemma comb_zip:
  "combine_results (zip docs (zip metas dists)) [] []
   = (take (min (length docs) (min (length metas) (length dists))) docs,
      first_appearance (map source_of
         (take (min (length docs) (min (length metas) (length dists))) metas)))"
proof -
  have "map (\<lambda>r. source_of (fst (snd r))) (zip docs (zip metas dists))
        = map source_of (map (\<lambda>r. fst (snd r)) (zip docs (zip metas dists)))"
    by simp
  then show ?thesis
    unfolding combine_results_eq first_appearance_def
    by (simp only: zip3_docs zip3_metas append_Nil)
qed


text \<open>
  C1, as stated: the sources are listed in the order of their first appearance.  The
  code collects them in a \<^verbatim>\<open>set\<close> and returns \<^verbatim>\<open>list(sources)\<close>; with an interpreter
  that enumerates the set \<open>{b.pdf, a.pdf}\<close> as \<open>a.pdf, b.pdf\<close> the result lists
  \<open>a.pdf\<close> first although \<open>b.pdf\<close> appears first.
\<close>

theorem retrieve_context_sources_order_counterexample:
  "retrieve_context (example_engine (Inr example_answer) rev) ''what is in the report'' None
     = Inr (''beta\<newline>\<newline>---\<newline>\<newline>alpha\<newline>\<newline>---\<newline>\<newline>gamma'', [MStr ''a.pdf'', MStr ''b.pdf''])
   \<and> first_appearance [MStr ''b.pdf'', MStr ''a.pdf'', MStr ''b.pdf'']
     = [MStr ''b.pdf'', MStr ''a.pdf'']"
  by (simp add: retrieve_context_def retrieve_try_def example_engine_def example_answer_def
      effective_k_def embed_query_def source_of_def set_add_def first_appearance_def
      CONTEXT_SEPARATOR_def)

text \<open>
  C1, amended.  When the search returns a non-empty result list, \<^verbatim>\<open>retrieve_context\<close>
  returns the retrieved chunk texts joined by the separator, together with the distinct
  \<^verbatim>\<open>source\<close> values of the results (\<^verbatim>\<open>unknown\<close> where a result has none), each
  exactly once, in the order in which the interpreter enumerates the set of them.
\<close>

theorem retrieve_context_combines:
  assumes "chroma_get_or_create eng (collection_name eng) = Inr c"
    and "embed_query eng query = Inr q"
    and "chroma_query eng c [q] (effective_k eng k) = Inr res"
    and "documents res = docs # rdocs" and "docs \<noteq> []"
    and "metadatas res = metas # rmetas"
    and "distances res = dists # rdists"
    and "n = min (length docs) (min (length metas) (length dists))"
    and "\<forall>s. mset (set_iteration eng s) = mset s"
  shows "\<exists>srcs. retrieve_context eng query k
                 = Inr (py_join CONTEXT_SEPARATOR (take n docs), srcs)
           \<and> srcs = set_iteration eng (first_appearance (map source_of (take n metas)))
           \<and> distinct srcs
           \<and> set srcs = set (map source_of (take n metas))"
proof -
  let ?fa = "first_appearance (map source_of (take n metas))"
  have comb: "combine_results (zip docs (zip metas dists)) [] [] = (take n docs, ?fa)"
    unfolding assms(8) by (rule comb_zip)
  have r: "retrieve_context eng query k
           = Inr (py_join CONTEXT_SEPARATOR (take n docs), set_iteration eng ?fa)"
    using assms(1-7) comb by (simp add: retrieve_context_def retrieve_try_def)
  have m: "mset (set_iteration eng ?fa) = mset ?fa" using assms(9) by simp
  have d: "distinct (set_iteration eng ?fa)"
    using mset_eq_imp_distinct_iff [OF m] first_appearance_distinct [of "map source_of (take n metas)"]
    by simp
  have s: "set (set_iteration eng ?fa) = set (map source_of (take n metas))"
    using mset_eq_setD [OF m] by (simp add: first_appearance_set)
  show ?thesis using r d s by simp
qed

theorem retrieve_context_combines_witness:
  "chroma_get_or_create (example_engine (Inr example_answer) rev)
       (collection_name (example_engine (Inr example_answer) rev)) = Inr 0
   \<and> embed_query (example_engine (Inr example_answer) rev) ''what is in the report''
       = Inr [Num (ieee_of_nat 1), Num (ieee_of_nat 0)]
   \<and> chroma_query (example_engine (Inr example_answer) rev) 0 [[Num (ieee_of_nat 1), Num (ieee_of_nat 0)]]
         (effective_k (example_engine (Inr example_answer) rev) None) = Inr example_answer
   \<and> documents example_answer = [''beta'', ''alpha'', ''gamma''] # []
   \<and> [''beta'', ''alpha'', ''gamma''] \<noteq> []
   \<and> (\<forall>s. mset (set_iteration (example_engine (Inr example_answer) rev) s) = mset s)
   \<and> (\<exists>srcs. retrieve_context (example_engine (Inr example_answer) rev)
                ''what is in the report'' None
              = Inr (py_join CONTEXT_SEPARATOR [''beta'', ''alpha'', ''gamma''], srcs)
           \<and> distinct srcs
           \<and> set srcs = {MStr ''a.pdf'', MStr ''b.pdf''})"
proof -
  let ?E = "example_engine (Inr example_answer) rev"
  let ?metas = "[[(''source'', MStr ''b.pdf'')], [(''source'', MStr ''a.pdf'')],
                 [(''source'', MStr ''b.pdf'')]]"
  have h1: "chroma_get_or_create ?E (collection_name ?E) = Inr 0"
    by (simp add: example_engine_def)
  have h2: "embed_query ?E ''what is in the report'' = Inr [Num (ieee_of_nat 1), Num (ieee_of_nat 0)]"
    by (simp add: example_engine_def embed_query_def)
  have h3: "chroma_query ?E 0 [[Num (ieee_of_nat 1), Num (ieee_of_nat 0)]] (effective_k ?E None) = Inr example_answer"
    by (simp add: example_engine_def)
  have h4: "documents example_answer = [''beta'', ''alpha'', ''gamma''] # []"
    by (simp add: example_answer_def)
  have h5: "[''beta'', ''alpha'', ''gamma''] \<noteq> []" by simp
  have h6: "metadatas example_answer = ?metas # []"
    by (simp add: example_answer_def)
  have h7: "distances example_answer = [0.1, 0.2, 0.3] # []"
    by (simp add: example_answer_def)
  have h8: "(3::nat) = min (length [''beta'', ''alpha'', ''gamma''])
                        (min (length ?metas) (length [0.1, 0.2, 0.3 :: real]))"
    by simp
  have h9: "\<forall>s. mset (set_iteration ?E s) = mset s"
    by (simp add: example_engine_def)
  have src: "set (map source_of (take 3 ?metas)) = {MStr ''a.pdf'', MStr ''b.pdf''}"
    by (auto simp: source_of_def)
  show ?thesis
    using h1 h2 h3 h4 h5 h9 retrieve_context_combines [OF h1 h2 h3 h4 h5 h6 h7 h8 h9]
    unfolding src by simp
qed

section \<open>Claims about ingestion\<close>

text \<open>
  C5.  Content that is empty or only whitespace is not ingested: \<^verbatim>\<open>ingest_document\<close>
  and \<^verbatim>\<open>ingest_pdf\<close> return 0 and make no call to the vector store.  The splitter is
  a library; that it returns no chunk for blank text is its contract.
\<close>

theorem blank_content_not_ingested:
  assumes "py_strip doc = ''''"
    and "extract_text_from_pdf eng pdf_data = Inr pdf_text" and "py_strip pdf_text = ''''"
    and "\<forall>s. py_strip s = '''' \<longrightarrow> split_text eng s = []"
  shows "ingest_document eng doc filename metadata = (Inr 0, [])
       \<and> ingest_pdf eng pdf_data pdf_filename = (Inr 0, [])"
  using assms by (simp add: ingest_document_def ingest_pdf_def)

theorem blank_content_not_ingested_witness:
  "py_strip '' \<newline> '' = ''''
   \<and> extract_text_from_pdf (example_engine (Inr example_answer) id) [0x25, 0x50, 0x44, 0x46]
       = Inr ''''
   \<and> py_strip '''' = ''''
   \<and> split_text (example_engine (Inr example_answer) id) '' \<newline> '' = []
   \<and> ingest_document (example_engine (Inr example_answer) id) '' \<newline> '' ''notes.txt'' None
       = (Inr 0, [])
   \<and> ingest_pdf (example_engine (Inr example_answer) id) [0x25, 0x50, 0x44, 0x46] ''scan.pdf''
       = (Inr 0, [])"
proof -
  let ?E = "example_engine (Inr example_answer) id"
  have h1: "py_strip '' \<newline> '' = ''''"
    by (simp add: py_strip_def is_space_def)
  have h2: "extract_text_from_pdf ?E [0x25, 0x50, 0x44, 0x46] = Inr ''''"
    by (simp add: extract_text_from_pdf_def example_engine_def)
  have h3: "py_strip '''' = ''''" by (simp add: py_strip_def)
  have h4: "\<forall>s. py_strip s = '''' \<longrightarrow> split_text ?E s = []"
    by (simp add: example_engine_def)
  show ?thesis
    using h1 h2 h3 h4 blank_content_not_ingested [OF h1 h2 h3 h4, where filename = "''notes.txt''"
      and metadata = None and pdf_filename = "''scan.pdf''"]
    by simp
qed

text \<open>Content that is not blank is embedded and upserted.\<close>

lemma nonblank_content_ingested_example:
  "ingest_document (example_engine (Inr example_answer) id) ''hello'' ''notes.txt'' None
   = (Inr 1,
      [GetOrCreateCollection ''multisense_documents'',
       Upsert [''01234567_chunk_0''] [[Num (ieee_of_nat 1), Num (ieee_of_nat 0)]] [''hello'']
         [[(''source'', MStr ''notes.txt''), (''chunk_index'', MInt 0), (''total_chunks'', MInt 1)]]])"
  by (simp add: ingest_document_def example_engine_def py_strip_def is_space_def dict_merge_def
      digit_char_def)

section \<open>Claims about the text pipeline\<close>

lemma add_turn_heap:
  "fst (add_turn h ms now sid r c mt)
   = h\<lparr>cells := (cells h)(next_addr h \<mapsto>
                 TurnObj \<lparr>role = r, content = c, timestamp = now, message_type = mt\<rparr>),
        next_addr := Suc (next_addr h)\<rparr>"
  by (simp add: add_turn_def heap_alloc_def Let_def)

lemma build_messages_frame:
  "build_messages h ts = (r, h') \<Longrightarrow>
     next_addr h \<le> next_addr h'
     \<and> (\<forall>a < next_addr h. cells h' a = cells h a)
     \<and> (\<forall>msgs. r = Inr msgs \<longrightarrow> (\<forall>m \<in> set msgs. next_addr h \<le> m))"
proof (induction ts arbitrary: h r h')
  case Nil
  then show ?case by auto
next
  case (Cons t ts)
  show ?case
  proof (cases "cells h t")
    case None
    then show ?thesis using Cons.prems by auto
  next
    case (Some obj)
    show ?thesis
    proof (cases obj)
      case (DictObj d)
      then show ?thesis using Cons.prems Some by auto
    next
      case (TurnObj turn)
      define hh where
        "hh = h\<lparr>cells := (cells h)(next_addr h \<mapsto>
                     DictObj [(''role'', role turn), (''content'', content turn)]),
                 next_addr := Suc (next_addr h)\<rparr>"
      obtain r2 h2 where rec: "build_messages hh ts = (r2, h2)" by (cases "build_messages hh ts")
      from Cons.IH [OF rec] have
        ih1: "next_addr hh \<le> next_addr h2"
        and ih2: "\<forall>a < next_addr hh. cells h2 a = cells hh a"
        and ih3: "\<forall>msgs. r2 = Inr msgs \<longrightarrow> (\<forall>m \<in> set msgs. next_addr hh \<le> m)"
        by simp_all
      have nx: "next_addr hh = Suc (next_addr h)" by (simp add: hh_def)
      have old: "cells hh a = cells h a" if "a < next_addr h" for a
        using that by (simp add: hh_def)
      have res: "(r, h') = (case r2 of Inl e \<Rightarrow> (Inl e, h2) | Inr as \<Rightarrow> (Inr (next_addr h # as), h2))"
        using Cons.prems Some TurnObj rec by (simp add: heap_alloc_def hh_def)
      show ?thesis
      proof (cases r2)
        case (Inl e)
        then have "r = Inl e" "h' = h2" using res by simp_all
        then show ?thesis using ih1 ih2 nx old by auto
      next
        case (Inr as)
        then have "r = Inr (next_addr h # as)" "h' = h2" using res by simp_all
        then show ?thesis using ih1 ih2 ih3 nx old Inr by auto
      qed
    qed
  qed
qed

lemma set_last_content_frame:
  assumes "set_last_content h history v = Inr h'" and "\<forall>m \<in> set history. n \<le> m"
  shows "next_addr h' = next_addr h \<and> (\<forall>a < n. cells h' a = cells h a)"
proof (cases "history = []")
  case True
  then show ?thesis using assms by (simp add: set_last_content_def)
next
  case False
  then have "n \<le> last history" using assms(2) by simp
  then show ?thesis using assms(1) False
    by (auto simp: set_last_content_def split: option.splits py_obj.splits)
qed

lemma dict_get_set_same: "dict_get (dict_set d k v) k = Some v"
proof (induction d)
  case Nil
  show ?case by simp
next
  case (Cons p d)
  then show ?case by (cases p) simp
qed

lemma read_messages_last:
  "read_messages h as = Inr msgs \<Longrightarrow> as \<noteq> [] \<Longrightarrow>
     msgs \<noteq> [] \<and> cells h (last as) = Some (DictObj (last msgs))"
proof (induction as arbitrary: msgs)
  case Nil
  then show ?case by simp
next
  case (Cons a as)
  from Cons.prems(1) obtain d ds where
    a: "cells h a = Some (DictObj d)" and rest: "read_messages h as = Inr ds" and m: "msgs = d # ds"
    by (auto split: option.splits py_obj.splits sum.splits)
  show ?case
  proof (cases "as = []")
    case True
    then show ?thesis using a rest m by simp
  next
    case False
    from Cons.IH [OF rest False] show ?thesis using m False by simp
  qed
qed

lemma set_last_content_last:
  assumes "set_last_content h history v = Inr h'" and "history \<noteq> []"
  shows "\<exists>d. cells h' (last history) = Some (DictObj (dict_set d ''content'' v))"
  using assms by (auto simp: set_last_content_def split: option.splits py_obj.splits)

text \<open>
  C10.  In a call of \<^verbatim>\<open>process_text\<close> with RAG enabled and a retrieved context that is
  not empty, the turn object recorded for the user message keeps the original text
  through the whole call, whatever its outcome, and every object that existed before the
  call is left as it was: the messages that \<^verbatim>\<open>get_chat_messages\<close> returns are new
  objects, and the assignment of the augmented prompt goes to the last of them.  The
  message list handed to the language model, when it is not empty, ends with the
  augmented prompt.
\<close>

theorem process_text_keeps_user_turn:
  assumes "retrieve_context eng text None = Inr (context, srcs)" and "context \<noteq> ''''"
  shows "cells (final_heap (process_text eng client h ms t1 t2 t3 text sid True)) (next_addr h)
           = Some (TurnObj \<lparr>role = ''user'', content = text, timestamp = t1,
                            message_type = TEXT\<rparr>)
       \<and> (\<forall>a < next_addr h.
             cells (final_heap (process_text eng client h ms t1 t2 t3 text sid True)) a
             = cells h a)
       \<and> (\<forall>msgs. sent_messages (process_text eng client h ms t1 t2 t3 text sid True) = Some msgs
                  \<and> msgs \<noteq> []
             \<longrightarrow> dict_get (last msgs) ''content'' = Some (augment context text))"
proof -
  let ?run = "process_text eng client h ms t1 t2 t3 text sid True"
  let ?turn = "TurnObj \<lparr>role = ''user'', content = text, timestamp = t1, message_type = TEXT\<rparr>"
  obtain h1 ms1 where at: "add_turn h ms t1 sid ''user'' text TEXT = (h1, ms1)"
    by (cases "add_turn h ms t1 sid ''user'' text TEXT")
  have h1: "h1 = h\<lparr>cells := (cells h)(next_addr h \<mapsto> ?turn), next_addr := Suc (next_addr h)\<rparr>"
    using add_turn_heap [of h ms t1 sid "''user''" "text" TEXT] at by simp
  have n1: "next_addr h1 = Suc (next_addr h)" by (simp add: h1)
  have c1: "cells h1 (next_addr h) = Some ?turn" by (simp add: h1)
  have o1: "cells h1 a = cells h a" if "a < next_addr h" for a using that by (simp add: h1)
  obtain r h2 ms2 where g: "get_chat_messages h1 ms1 t2 sid = (r, h2, ms2)"
    by (cases "get_chat_messages h1 ms1 t2 sid")
  have f12: "next_addr h1 \<le> next_addr h2
     \<and> (\<forall>a < next_addr h1. cells h2 a = cells h1 a)
     \<and> (\<forall>msgs. r = Inr msgs \<longrightarrow> (\<forall>m \<in> set msgs. next_addr h1 \<le> m))"
  proof (cases "get_history ms1 t2 sid")
    case (Inl e)
    then have "r = Inl e" "h2 = h1" using g by (simp_all add: get_chat_messages_def)
    then show ?thesis by simp
  next
    case (Inr p)
    obtain ts ms' where p: "p = (ts, ms')" by (cases p)
    obtain r' h' where b: "build_messages h1 ts = (r', h')" by (cases "build_messages h1 ts")
    have "r = r'" "h2 = h'" using g Inr p b by (simp_all add: get_chat_messages_def)
    then show ?thesis using build_messages_frame [OF b] by simp
  qed
  have unfold: "?run =
     (case r of
        Inl e \<Rightarrow> \<lparr>outcome = Inl e, sent_messages = None, final_heap = h2, final_memory = ms2\<rparr>
      | Inr history \<Rightarrow>
     (case set_last_content h2 history (augment context text) of
        Inl e \<Rightarrow> \<lparr>outcome = Inl e, sent_messages = None, final_heap = h2, final_memory = ms2\<rparr>
      | Inr h3 \<Rightarrow>
     (case read_messages h3 history of
        Inl e \<Rightarrow> \<lparr>outcome = Inl e, sent_messages = None, final_heap = h3, final_memory = ms2\<rparr>
      | Inr msgs \<Rightarrow>
     (case chat_completion client msgs (Some SYSTEM_PROMPT) of
        Inl e \<Rightarrow>
          \<lparr>outcome = Inl e, sent_messages = Some msgs, final_heap = h3, final_memory = ms2\<rparr>
      | Inr response \<Rightarrow>
          \<lparr>outcome = Inr \<lparr>response_text = response, response_session_id = sid,
                           response_sources = srcs, response_message_type = TEXT\<rparr>,
           sent_messages = Some msgs,
           final_heap = fst (add_turn h3 ms2 t3 sid ''assistant'' response TEXT),
           final_memory = snd (add_turn h3 ms2 t3 sid ''assistant'' response TEXT)\<rparr>))))"
    using assms at g
    by (simp add: process_text_def split: sum.splits prod.splits)
  have goal: "cells (final_heap ?run) (next_addr h) = Some ?turn
       \<and> (\<forall>a < next_addr h. cells (final_heap ?run) a = cells h a)
       \<and> (\<forall>msgs. sent_messages ?run = Some msgs \<and> msgs \<noteq> []
             \<longrightarrow> dict_get (last msgs) ''content'' = Some (augment context text))"
  proof (cases r)
    case (Inl e)
    then show ?thesis using unfold f12 n1 c1 o1 by simp
  next
    case (Inr history)
    note r = Inr
    have fresh: "\<forall>m \<in> set history. next_addr h1 \<le> m" using f12 r by simp
    show ?thesis
    proof (cases "set_last_content h2 history (augment context text)")
      case (Inl e)
      then show ?thesis using unfold r f12 n1 c1 o1 by simp
    next
      case (Inr h3)
      note s = Inr
      from set_last_content_frame [OF s fresh] have
        f23: "next_addr h3 = next_addr h2" "\<forall>a < next_addr h1. cells h3 a = cells h2 a"
        by simp_all
      have k3: "cells h3 (next_addr h) = Some ?turn" using f23 f12 n1 c1 by simp
      have o3: "\<forall>a < next_addr h. cells h3 a = cells h a" using f23 f12 n1 o1 by simp
      show ?thesis
      proof (cases "read_messages h3 history")
        case (Inl e)
        then show ?thesis using unfold r s k3 o3 by simp
      next
        case (Inr msgs)
        note m = Inr
        have sent: "dict_get (last msgs) ''content'' = Some (augment context text)"
          if "msgs \<noteq> []"
        proof -
          have ne: "history \<noteq> []" using that m by (cases history) simp_all
          from read_messages_last [OF m ne]
          have "cells h3 (last history) = Some (DictObj (last msgs))" by simp
          moreover from set_last_content_last [OF s ne] obtain d where
            "cells h3 (last history) = Some (DictObj (dict_set d ''content'' (augment context text)))"
            by blast
          ultimately have "last msgs = dict_set d ''content'' (augment context text)" by simp
          then show ?thesis by (simp add: dict_get_set_same)
        qed
        show ?thesis
        proof (cases "chat_completion client msgs (Some SYSTEM_PROMPT)")
          case (Inl e)
          then show ?thesis using unfold r s m k3 o3 sent by simp
        next
          case (Inr response)
          have n3: "next_addr h \<le> next_addr h3" using f23 f12 n1 by simp
          have k4: "cells (fst (add_turn h3 ms2 t3 sid ''assistant'' response TEXT)) (next_addr h)
                    = Some ?turn"
            using k3 n3 f23 f12 n1 by (simp add: add_turn_heap)
          have o4: "\<forall>a < next_addr h.
                      cells (fst (add_turn h3 ms2 t3 sid ''assistant'' response TEXT)) a = cells h a"
            using o3 n3 by (simp add: add_turn_heap)
          show ?thesis using unfold r s m Inr k4 o4 sent by simp
        qed
      qed
    qed
  qed
  then show ?thesis .
qed

lemma retrieve_context_example:
  "retrieve_context (example_engine (Inr example_answer) rev) ''what is in the report'' None
     = Inr (''beta\<newline>\<newline>---\<newline>\<newline>alpha\<newline>\<newline>---\<newline>\<newline>gamma'', [MStr ''a.pdf'', MStr ''b.pdf''])"
  by (simp add: retrieve_context_def retrieve_try_def example_engine_def example_answer_def
      effective_k_def embed_query_def source_of_def set_add_def CONTEXT_SEPARATOR_def)

theorem process_text_keeps_user_turn_witness:
  "retrieve_context (example_engine (Inr example_answer) rev) ''what is in the report'' None
     = Inr (''beta\<newline>\<newline>---\<newline>\<newline>alpha\<newline>\<newline>---\<newline>\<newline>gamma'', [MStr ''a.pdf'', MStr ''b.pdf''])
   \<and> ''beta\<newline>\<newline>---\<newline>\<newline>alpha\<newline>\<newline>---\<newline>\<newline>gamma'' \<noteq> ''''
   \<and> cells (final_heap (process_text (example_engine (Inr example_answer) rev)
                (\<lambda>n msgs. Inr ''It covers beta.'') empty_heap (new_memory_service 20 24)
                200000000000 200000001000 200000002000 ''what is in the report'' ''s'' True))
         (next_addr empty_heap)
       = Some (TurnObj \<lparr>role = ''user'', content = ''what is in the report'',
                        timestamp = 200000000000, message_type = TEXT\<rparr>)"
proof -
  have h1: "retrieve_context (example_engine (Inr example_answer) rev) ''what is in the report'' None
     = Inr (''beta\<newline>\<newline>---\<newline>\<newline>alpha\<newline>\<newline>---\<newline>\<newline>gamma'', [MStr ''a.pdf'', MStr ''b.pdf''])"
    by (rule retrieve_context_example)
  have h2: "''beta\<newline>\<newline>---\<newline>\<newline>alpha\<newline>\<newline>---\<newline>\<newline>gamma'' \<noteq> ''''" by simp
  show ?thesis
    using h1 process_text_keeps_user_turn [OF h1 h2, of "\<lambda>n msgs. Inr ''It covers beta.''"
        empty_heap "new_memory_service 20 24" 200000000000 200000001000 200000002000 "''s''"]
    by simp
qed

lemma process_text_example:
  "(case process_text (example_engine (Inr example_answer) rev)
           (\<lambda>n msgs. Inr ''It covers beta.'') empty_heap (new_memory_service 20 24)
           200000000000 200000001000 200000002000 ''what is in the report'' ''s'' True of
      run \<Rightarrow> (sent_messages run,
               session_turns (final_memory run) ''s'',
               cells (final_heap run) 0, cells (final_heap run) 1, cells (final_heap run) 2))
   = (Some [[(''role'', ''user''),
             (''content'', augment ''beta\<newline>\<newline>---\<newline>\<newline>alpha\<newline>\<newline>---\<newline>\<newline>gamma''
                             ''what is in the report'')]],
      [0, 2],
      Some (TurnObj \<lparr>role = ''user'', content = ''what is in the report'',
                      timestamp = 200000000000, message_type = TEXT\<rparr>),
      Some (DictObj [(''role'', ''user''),
             (''content'', augment ''beta\<newline>\<newline>---\<newline>\<newline>alpha\<newline>\<newline>---\<newline>\<newline>gamma''
                             ''what is in the report'')]),
      Some (TurnObj \<lparr>role = ''assistant'', content = ''It covers beta.'',
                      timestamp = 200000002000, message_type = TEXT\<rparr>))"
  by (simp add: process_text_def retrieve_context_example add_turn_def heap_alloc_def
      empty_heap_def new_memory_service_def get_chat_messages_def get_history_def
      cleanup_expired_def timedelta_hours_def datetime_sub_def DATETIME_END_def
      set_last_content_def chat_completion_def session_turns_def py_slice_from_def)

section \<open>The history bound for a positive maximum\<close>

text \<open>
  For a configured maximum of at least 1 the history is bounded as C3 says: a call trims
  the list to its last \<open>max_history\<close> entries, the bound is kept by every call, and
  after at least \<open>max_history\<close> consecutive calls on a session its list consists of
  the turns of the last \<open>max_history\<close> calls, in the order of the calls.
\<close>

lemma dict_get_set_other: "k' \<noteq> k \<Longrightarrow> dict_get (dict_set d k v) k' = dict_get d k'"
proof (induction d)
  case Nil
  then show ?case by simp
next
  case (Cons p d)
  obtain a b where p: "p = (a, b)" by (cases p)
  show ?case unfolding p using Cons by (cases "a = k") simp_all
qed

lemma add_turn_max_history: "max_history (snd (add_turn h ms now sid r c mt)) = max_history ms"
  by (simp add: add_turn_def heap_alloc_def Let_def)

lemma add_turn_session_turns:
  "session_turns (snd (add_turn h ms now sid r c mt)) sid
   = (if int (length (session_turns ms sid @ [next_addr h])) > max_history ms
      then py_slice_from (session_turns ms sid @ [next_addr h]) (- max_history ms)
      else session_turns ms sid @ [next_addr h])"
  by (cases "dict_get (conversations ms) sid")
     (simp_all add: add_turn_def heap_alloc_def Let_def session_turns_def dict_get_set_same)

lemma add_turn_other_session:
  "other \<noteq> sid \<Longrightarrow>
   session_turns (snd (add_turn h ms now sid r c mt)) other = session_turns ms other"
  by (simp add: add_turn_def heap_alloc_def Let_def session_turns_def dict_get_set_other)

lemma trim_positive:
  assumes "1 \<le> m"
  shows "(if int (length xs) > m then py_slice_from xs (- m) else xs)
         = drop (length xs - nat m) xs"
proof (cases "int (length xs) > m")
  case True
  have "nat (int (length xs) - m) = length xs - nat m" using assms by simp
  then show ?thesis using True assms by (simp add: py_slice_from_def)
next
  case False
  then have "length xs - nat m = 0" by simp
  then show ?thesis using False by simp
qed

lemma add_turn_trims:
  assumes "1 \<le> max_history ms"
  shows "session_turns (snd (add_turn h ms now sid r c mt)) sid
         = drop (Suc (length (session_turns ms sid)) - nat (max_history ms))
             (session_turns ms sid @ [next_addr h])"
  using trim_positive [OF assms, of "session_turns ms sid @ [next_addr h]"]
  by (simp only: add_turn_session_turns length_append list.size add_0_right One_nat_def
      add_Suc_right)

lemma add_turn_keeps_bound:
  assumes "1 \<le> max_history ms"
    and "\<forall>s. int (length (session_turns ms s)) \<le> max_history ms"
  shows "\<forall>s. int (length (session_turns (snd (add_turn h ms now sid r c mt)) s))
             \<le> max_history (snd (add_turn h ms now sid r c mt))"
proof
  fix s
  show "int (length (session_turns (snd (add_turn h ms now sid r c mt)) s))
        \<le> max_history (snd (add_turn h ms now sid r c mt))"
  proof (cases "s = sid")
    case True
    have "length (session_turns (snd (add_turn h ms now sid r c mt)) sid)
          = Suc (length (session_turns ms sid))
            - (Suc (length (session_turns ms sid)) - nat (max_history ms))"
      by (simp add: add_turn_trims [OF assms(1)])
    then show ?thesis using True assms(1) by (simp add: add_turn_max_history)
  next
    case False
    then show ?thesis using assms(2) by (simp add: add_turn_other_session add_turn_max_history)
  qed
qed

lemma new_memory_service_bound:
  "0 \<le> m \<Longrightarrow> \<forall>s. int (length (session_turns (new_memory_service m ttl) s)) \<le> max_history (new_memory_service m ttl)"
  by (simp add: new_memory_service_def session_turns_def)
lemma last_elems_append:
  "drop (length (drop (length xs - m) xs @ ys) - m) (drop (length xs - m) xs @ ys)
   = drop (length (xs @ ys) - m) (xs @ ys)"
proof (cases "length xs \<le> m")
  case True
  then show ?thesis by simp
next
  case False
  then have m: "m < length xs" by simp
  have "drop (length (drop (length xs - m) xs @ ys) - m) (drop (length xs - m) xs @ ys)
        = drop (length ys) (drop (length xs - m) xs @ ys)"
    using m by simp
  also have "\<dots> = drop (length ys) (drop (length xs - m) (xs @ ys))"
    using m by simp
  also have "\<dots> = drop (length (xs @ ys) - m) (xs @ ys)"
    using m by (simp add: add.commute)
  finally show ?thesis .
qed

lemma upt_first: "[a ..< Suc (a + n)] = a # [Suc a ..< Suc (a + n)]"
  by (simp add: upt_conv_Cons del: upt_Suc)

lemma add_turn_next_addr: "next_addr (fst (add_turn h ms now sid r c mt)) = Suc (next_addr h)"
  by (simp add: add_turn_heap)

lemma add_turns_max_history: "max_history (snd (add_turns h ms sid calls)) = max_history ms"
proof (induction calls arbitrary: h ms)
  case Nil
  show ?case by simp
next
  case (Cons call calls)
  obtain now r c mt where call: "call = (now, r, c, mt)" by (cases call)
  obtain h1 ms1 where at: "add_turn h ms now sid r c mt = (h1, ms1)"
    by (cases "add_turn h ms now sid r c mt")
  have "max_history ms1 = max_history ms"
    using add_turn_max_history [of h ms now sid r c mt] at by simp
  then show ?case using Cons.IH [of h1 ms1] call at by simp
qed

lemma add_turn_bounded:
  assumes "1 \<le> max_history ms"
  shows "int (length (session_turns (snd (add_turn h ms now sid r c mt)) sid)) \<le> max_history ms"
proof -
  have "length (session_turns (snd (add_turn h ms now sid r c mt)) sid)
        = Suc (length (session_turns ms sid))
          - (Suc (length (session_turns ms sid)) - nat (max_history ms))"
    by (simp add: add_turn_trims [OF assms])
  then show ?thesis using assms by simp
qed

lemma add_turns_session_turns:
  assumes "1 \<le> max_history ms" and "int (length (session_turns ms sid)) \<le> max_history ms"
  shows "session_turns (snd (add_turns h ms sid calls)) sid
         = drop (length (session_turns ms sid) + length calls - nat (max_history ms))
             (session_turns ms sid @ [next_addr h ..< next_addr h + length calls])"
  using assms
proof (induction calls arbitrary: h ms)
  case Nil
  then have "length (session_turns ms sid) - nat (max_history ms) = 0" by simp
  then show ?case by simp
next
  case (Cons call calls)
  obtain now r c mt where call: "call = (now, r, c, mt)" by (cases call)
  obtain h1 ms1 where at: "add_turn h ms now sid r c mt = (h1, ms1)"
    by (cases "add_turn h ms now sid r c mt")
  define m where "m = nat (max_history ms)"
  define xs where "xs = session_turns ms sid @ [next_addr h]"
  define ys where "ys = [Suc (next_addr h) ..< Suc (next_addr h) + length calls]"
  have mh: "max_history ms1 = max_history ms"
    using add_turn_max_history [of h ms now sid r c mt] at by simp
  have na: "next_addr h1 = Suc (next_addr h)"
    using add_turn_next_addr [of h ms now sid r c mt] at by simp
  have t1: "session_turns ms1 sid = drop (length xs - m) xs"
    using add_turn_trims [OF Cons.prems(1), of h now sid r c mt] at by (simp add: xs_def m_def)
  have b1: "int (length (session_turns ms1 sid)) \<le> max_history ms1"
    using add_turn_bounded [OF Cons.prems(1), of h now sid r c mt] at mh by simp
  have p1: "1 \<le> max_history ms1" using Cons.prems(1) mh by simp
  have "session_turns (snd (add_turns h ms sid (call # calls))) sid
        = session_turns (snd (add_turns h1 ms1 sid calls)) sid"
    using call at by simp
  also have "\<dots> = drop (length (session_turns ms1 sid) + length calls - m)
                     (session_turns ms1 sid @ ys)"
    using Cons.IH [OF p1 b1, of h1] by (simp add: mh na m_def ys_def)
  also have "\<dots> = drop (length (drop (length xs - m) xs @ ys) - m) (drop (length xs - m) xs @ ys)"
    by (simp add: t1 ys_def)
  also have "\<dots> = drop (length (xs @ ys) - m) (xs @ ys)"
    by (rule last_elems_append)
  also have "xs @ ys = session_turns ms sid
                        @ [next_addr h ..< next_addr h + length (call # calls)]"
    by (simp add: xs_def ys_def upt_first del: upt_Suc)
  finally show ?case by (simp add: m_def)
qed

lemma add_turns_most_recent:
  assumes "1 \<le> max_history ms" and "max_history ms \<le> int (length calls)"
  shows "session_turns (snd (add_turns h ms sid calls)) sid
         = [next_addr h + length calls - nat (max_history ms) ..< next_addr h + length calls]"
proof (cases calls)
  case Nil
  then show ?thesis using assms by simp
next
  case (Cons call rest)
  obtain now r c mt where call: "call = (now, r, c, mt)" by (cases call)
  obtain h1 ms1 where at: "add_turn h ms now sid r c mt = (h1, ms1)"
    by (cases "add_turn h ms now sid r c mt")
  define m where "m = nat (max_history ms)"
  define xs where "xs = session_turns ms sid @ [next_addr h]"
  define ys where "ys = [Suc (next_addr h) ..< Suc (next_addr h) + length rest]"
  have mh: "max_history ms1 = max_history ms"
    using add_turn_max_history [of h ms now sid r c mt] at by simp
  have na: "next_addr h1 = Suc (next_addr h)"
    using add_turn_next_addr [of h ms now sid r c mt] at by simp
  have t1: "session_turns ms1 sid = drop (length xs - m) xs"
    using add_turn_trims [OF assms(1), of h now sid r c mt] at by (simp add: xs_def m_def)
  have b1: "int (length (session_turns ms1 sid)) \<le> max_history ms1"
    using add_turn_bounded [OF assms(1), of h now sid r c mt] at mh by simp
  have p1: "1 \<le> max_history ms1" using assms(1) mh by simp
  have len: "m \<le> Suc (length rest)" using assms(2) Cons by (simp add: m_def)
  have "session_turns (snd (add_turns h ms sid calls)) sid
        = session_turns (snd (add_turns h1 ms1 sid rest)) sid"
    using Cons call at by simp
  also have "\<dots> = drop (length (session_turns ms1 sid) + length rest - m)
                     (session_turns ms1 sid @ ys)"
    using add_turns_session_turns [OF p1 b1, of h1 rest] by (simp add: mh na m_def ys_def)
  also have "\<dots> = drop (length (drop (length xs - m) xs @ ys) - m) (drop (length xs - m) xs @ ys)"
    by (simp add: t1 ys_def)
  also have "\<dots> = drop (length (xs @ ys) - m) (xs @ ys)"
    by (rule last_elems_append)
  also have "xs @ ys = session_turns ms sid @ [next_addr h ..< next_addr h + length calls]"
    by (simp add: xs_def ys_def Cons upt_first del: upt_Suc)
  also have "drop (length (session_turns ms sid @ [next_addr h ..< next_addr h + length calls]) - m)
               (session_turns ms sid @ [next_addr h ..< next_addr h + length calls])
             = drop (length calls - m) [next_addr h ..< next_addr h + length calls]"
    using len Cons by simp
  also have "\<dots> = [next_addr h + length calls - m ..< next_addr h + length calls]"
    using len Cons by (simp add: drop_upt)
  finally show ?thesis by (simp add: m_def)
qed

lemma add_turns_heap:
  "next_addr (fst (add_turns h ms sid calls)) = next_addr h + length calls
   \<and> (\<forall>a < next_addr h. cells (fst (add_turns h ms sid calls)) a = cells h a)
   \<and> (\<forall>i < length calls.
         cells (fst (add_turns h ms sid calls)) (next_addr h + i)
         = Some (TurnObj \<lparr>role = fst (snd (calls ! i)), content = fst (snd (snd (calls ! i))),
                          timestamp = fst (calls ! i),
                          message_type = snd (snd (snd (calls ! i)))\<rparr>))"
proof (induction calls arbitrary: h ms)
  case Nil
  show ?case by simp
next
  case (Cons call calls)
  obtain now r c mt where call: "call = (now, r, c, mt)" by (cases call)
  obtain h1 ms1 where at: "add_turn h ms now sid r c mt = (h1, ms1)"
    by (cases "add_turn h ms now sid r c mt")
  have h1: "h1 = h\<lparr>cells := (cells h)(next_addr h \<mapsto>
                 TurnObj \<lparr>role = r, content = c, timestamp = now, message_type = mt\<rparr>),
        next_addr := Suc (next_addr h)\<rparr>"
    using add_turn_heap [of h ms now sid r c mt] at by simp
  have run: "add_turns h ms sid (call # calls) = add_turns h1 ms1 sid calls"
    using call at by simp
  from Cons.IH [of h1 ms1] have
    ih1: "next_addr (fst (add_turns h1 ms1 sid calls)) = next_addr h1 + length calls"
    and ih2: "\<forall>a < next_addr h1. cells (fst (add_turns h1 ms1 sid calls)) a = cells h1 a"
    and ih3: "\<forall>i < length calls.
         cells (fst (add_turns h1 ms1 sid calls)) (next_addr h1 + i)
         = Some (TurnObj \<lparr>role = fst (snd (calls ! i)), content = fst (snd (snd (calls ! i))),
                          timestamp = fst (calls ! i),
                          message_type = snd (snd (snd (calls ! i)))\<rparr>)"
    by simp_all
  have a: "next_addr (fst (add_turns h ms sid (call # calls))) = next_addr h + length (call # calls)"
    using ih1 by (simp add: run h1)
  have b: "\<forall>a < next_addr h. cells (fst (add_turns h ms sid (call # calls))) a = cells h a"
    using ih2 by (simp add: run h1)
  have c: "cells (fst (add_turns h ms sid (call # calls))) (next_addr h + i)
         = Some (TurnObj \<lparr>role = fst (snd ((call # calls) ! i)),
                          content = fst (snd (snd ((call # calls) ! i))),
                          timestamp = fst ((call # calls) ! i),
                          message_type = snd (snd (snd ((call # calls) ! i)))\<rparr>)"
    if "i < length (call # calls)" for i
  proof (cases i)
    case 0
    have "cells (fst (add_turns h1 ms1 sid calls)) (next_addr h) = cells h1 (next_addr h)"
      using ih2 by (simp add: h1)
    then have "cells (fst (add_turns h ms sid (call # calls))) (next_addr h)
               = Some (TurnObj \<lparr>role = r, content = c, timestamp = now, message_type = mt\<rparr>)"
      unfolding run by (simp add: h1)
    then show ?thesis using 0 by (simp add: call)
  next
    case (Suc j)
    then have "j < length calls" using that by simp
    then show ?thesis using ih3 Suc by (simp add: run h1)
  qed
  show ?case by (intro conjI allI impI a b [rule_format] c)
qed

lemma add_turns_keep_most_recent:
  assumes "1 \<le> max_history ms" and "max_history ms \<le> int (length calls)"
  shows "length (session_turns (snd (add_turns h ms sid calls)) sid) = nat (max_history ms)
       \<and> map (cells (fst (add_turns h ms sid calls)))
             (session_turns (snd (add_turns h ms sid calls)) sid)
         = map (\<lambda>(now, r, c, mt).
                  Some (TurnObj \<lparr>role = r, content = c, timestamp = now, message_type = mt\<rparr>))
             (drop (length calls - nat (max_history ms)) calls)"
proof -
  define m where "m = nat (max_history ms)"
  define n where "n = length calls"
  define a where "a = next_addr h"
  let ?h = "fst (add_turns h ms sid calls)"
  let ?f = "\<lambda>(now, r, c, mt).
              Some (TurnObj \<lparr>role = r, content = c, timestamp = now, message_type = mt\<rparr>)"
  have mn: "m \<le> n" using assms by (simp add: m_def n_def)
  have ts: "session_turns (snd (add_turns h ms sid calls)) sid = [a + (n - m) ..< a + n]"
    using add_turns_most_recent [OF assms, of h sid] mn by (simp add: m_def n_def a_def)
  have len: "length [a + (n - m) ..< a + n] = m" using mn by simp
  have cell: "cells ?h (a + i) = ?f (calls ! i)" if "i < n" for i
    using add_turns_heap [of h ms sid calls] that
    by (simp add: a_def n_def case_prod_beta)
  have "map (cells ?h) [a + (n - m) ..< a + n] = map ?f (drop (n - m) calls)"
  proof (rule nth_equalityI)
    show "length (map (cells ?h) [a + (n - m) ..< a + n]) = length (map ?f (drop (n - m) calls))"
      using mn by (simp add: n_def)
  next
    fix i
    assume "i < length (map (cells ?h) [a + (n - m) ..< a + n])"
    then have i: "i < m" using mn by simp
    then have j: "n - m + i < n" using mn by simp
    have "map (cells ?h) [a + (n - m) ..< a + n] ! i = cells ?h (a + (n - m + i))"
      using i mn by (simp add: add.assoc)
    also have "\<dots> = ?f (calls ! (n - m + i))" using cell [OF j] .
    also have "\<dots> = map ?f (drop (n - m) calls) ! i"
      using i mn by (simp add: n_def)
    finally show "map (cells ?h) [a + (n - m) ..< a + n] ! i = map ?f (drop (n - m) calls) ! i" .
  qed
  then show ?thesis using ts len by (simp add: m_def n_def)
qed

lemma add_turns_example:
  "(case add_turns empty_heap (new_memory_service 2 24) ''s''
           [(1000, ''user'', ''one'', TEXT), (2000, ''assistant'', ''two'', TEXT),
            (3000, ''user'', ''three'', TEXT)] of
      (h, ms) \<Rightarrow> (session_turns ms ''s'', map (cells h) (session_turns ms ''s'')))
   = ([1, 2],
      [Some (TurnObj \<lparr>role = ''assistant'', content = ''two'', timestamp = 2000,
                       message_type = TEXT\<rparr>),
       Some (TurnObj \<lparr>role = ''user'', content = ''three'', timestamp = 3000,
                       message_type = TEXT\<rparr>)])"
  by (simp add: add_turn_def heap_alloc_def empty_heap_def new_memory_service_def
      session_turns_def py_slice_from_def)

end
